theory Spec2Isabelle
  imports Complex_Main "HOL-Library.Sublist"
begin

section \<open>C numbers\<close>

text \<open>
  A C \<^verbatim>\<open>double\<close> is modelled as a real number extended by the two infinities and by
  not-a-number.  Arithmetic on finite values is exact: rounding, overflow to infinity and
  the sign of zero are not modelled (a zero divisor counts as \<^verbatim>\<open>+0.0\<close>).  What is
  modelled is the part of IEEE 754 that the program tests for: not-a-number is absorbing
  in every arithmetic operation, and every comparison with it is false.

  A C \<^verbatim>\<open>int\<close> is modelled as an unbounded integer.  The counters and indices of this
  program are bounded by small multiples of the vertex capacity of a polygon, so no
  wrap-around occurs in them.
\<close>

datatype double = NaN | PInf | NInf | Fin real

instantiation double :: "{zero, one, plus, minus, uminus, times, inverse, ord}"
begin

definition zero_double :: double where
  "zero_double = Fin 0"

definition one_double :: double where
  "one_double = Fin 1"

fun plus_double :: "double \<Rightarrow> double \<Rightarrow> double" where
  "plus_double NaN b = NaN"
| "plus_double a NaN = NaN"
| "plus_double PInf NInf = NaN"
| "plus_double NInf PInf = NaN"
| "plus_double PInf b = PInf"
| "plus_double NInf b = NInf"
| "plus_double (Fin a) PInf = PInf"
| "plus_double (Fin a) NInf = NInf"
| "plus_double (Fin a) (Fin b) = Fin (a + b)"

fun uminus_double :: "double \<Rightarrow> double" where
  "uminus_double NaN = NaN"
| "uminus_double PInf = NInf"
| "uminus_double NInf = PInf"
| "uminus_double (Fin a) = Fin (- a)"

definition minus_double :: "double \<Rightarrow> double \<Rightarrow> double" where
  "minus_double a b = a + (- b)"

fun times_double :: "double \<Rightarrow> double \<Rightarrow> double" where
  "times_double NaN b = NaN"
| "times_double a NaN = NaN"
| "times_double (Fin a) (Fin b) = Fin (a * b)"
| "times_double (Fin a) PInf = (if a = 0 then NaN else if 0 < a then PInf else NInf)"
| "times_double (Fin a) NInf = (if a = 0 then NaN else if 0 < a then NInf else PInf)"
| "times_double PInf (Fin b) = (if b = 0 then NaN else if 0 < b then PInf else NInf)"
| "times_double NInf (Fin b) = (if b = 0 then NaN else if 0 < b then NInf else PInf)"
| "times_double PInf PInf = PInf"
| "times_double NInf NInf = PInf"
| "times_double PInf NInf = NInf"
| "times_double NInf PInf = NInf"

fun inverse_double :: "double \<Rightarrow> double" where
  "inverse_double NaN = NaN"
| "inverse_double PInf = Fin 0"
| "inverse_double NInf = Fin 0"
| "inverse_double (Fin a) = (if a = 0 then PInf else Fin (inverse a))"

fun divide_double :: "double \<Rightarrow> double \<Rightarrow> double" where
  "divide_double NaN b = NaN"
| "divide_double a NaN = NaN"
| "divide_double (Fin a) (Fin b) =
     (if b = 0 then (if a = 0 then NaN else if 0 < a then PInf else NInf)
      else Fin (a / b))"
| "divide_double (Fin a) PInf = Fin 0"
| "divide_double (Fin a) NInf = Fin 0"
| "divide_double PInf (Fin b) = (if 0 \<le> b then PInf else NInf)"
| "divide_double NInf (Fin b) = (if 0 \<le> b then NInf else PInf)"
| "divide_double PInf PInf = NaN"
| "divide_double PInf NInf = NaN"
| "divide_double NInf PInf = NaN"
| "divide_double NInf NInf = NaN"

fun less_double :: "double \<Rightarrow> double \<Rightarrow> bool" where
  "less_double NaN b = False"
| "less_double a NaN = False"
| "less_double (Fin a) (Fin b) = (a < b)"
| "less_double NInf NInf = False"
| "less_double NInf b = True"
| "less_double a NInf = False"
| "less_double PInf b = False"
| "less_double (Fin a) PInf = True"

fun less_eq_double :: "double \<Rightarrow> double \<Rightarrow> bool" where
  "less_eq_double NaN b = False"
| "less_eq_double a NaN = False"
| "less_eq_double (Fin a) (Fin b) = (a \<le> b)"
| "less_eq_double NInf b = True"
| "less_eq_double PInf PInf = True"
| "less_eq_double PInf b = False"
| "less_eq_double (Fin a) PInf = True"
| "less_eq_double (Fin a) NInf = False"

instance ..

end

instance double :: power ..

instance double :: numeral
proof
  fix a b c :: double
  show "a + b + c = a + (b + c)"
    by (cases a; cases b; cases c) simp_all
qed

fun isfinite :: "double \<Rightarrow> bool" where
  "isfinite (Fin a) = True"
| "isfinite a = False"

text \<open>The C operator \<^verbatim>\<open>==\<close> on doubles: not-a-number equals nothing, itself included.\<close>

definition deq :: "double \<Rightarrow> double \<Rightarrow> bool" where
  "deq a b = (a \<noteq> NaN \<and> b \<noteq> NaN \<and> a = b)"

definition npy_isnan :: "double \<Rightarrow> bool" where
  "npy_isnan a = (a = NaN)"

fun fabs :: "double \<Rightarrow> double" where
  "fabs NaN = NaN"
| "fabs PInf = PInf"
| "fabs NInf = PInf"
| "fabs (Fin a) = Fin \<bar>a\<bar>"

fun dsqrt :: "double \<Rightarrow> double" where
  "dsqrt NaN = NaN"
| "dsqrt PInf = PInf"
| "dsqrt NInf = NaN"
| "dsqrt (Fin a) = (if a < 0 then NaN else Fin (sqrt a))"

text \<open>\<^verbatim>\<open>copysign(a, b)\<close>: the magnitude of \<open>a\<close> with the sign of \<open>b\<close>; a zero or
  not-a-number \<open>b\<close> counts as positive.\<close>

fun sign_negative :: "double \<Rightarrow> bool" where
  "sign_negative NInf = True"
| "sign_negative (Fin b) = (b < 0)"
| "sign_negative b = False"

definition copysign :: "double \<Rightarrow> double \<Rightarrow> double" where
  "copysign a b = (if sign_negative b then - fabs a else fabs a)"

text \<open>The conversions between \<^verbatim>\<open>int\<close> and \<^verbatim>\<open>double\<close>.  \<^verbatim>\<open>(double) i\<close> is exact.
  \<^verbatim>\<open>(int) a\<close> truncates towards zero; for not-a-number, an infinity or a value outside
  the range of \<^verbatim>\<open>int\<close> C leaves the conversion undefined, and the model returns what the
  SSE2 conversion instruction returns there, \<^verbatim>\<open>INT_MIN\<close>.\<close>

definition double_of_int :: "int \<Rightarrow> double" where
  "double_of_int i = Fin (of_int i)"

definition INT_MIN :: int where
  "INT_MIN = - (2 ^ 31)"

definition trunc_real :: "real \<Rightarrow> int" where
  "trunc_real a = (if 0 \<le> a then \<lfloor>a\<rfloor> else \<lceil>a\<rceil>)"

fun int_of_double :: "double \<Rightarrow> int" where
  "int_of_double (Fin a) =
     (if - (2 ^ 31) - 1 < a \<and> a < 2 ^ 31 then trunc_real a else INT_MIN)"
| "int_of_double a = INT_MIN"

text \<open>\<^verbatim>\<open>round\<close> of the C library: to the nearest integer, halves away from zero.\<close>

fun round_double :: "double \<Rightarrow> double" where
  "round_double (Fin a) =
     Fin (of_int (if 0 \<le> a then \<lfloor>a + 1 / 2\<rfloor> else \<lceil>a - 1 / 2\<rceil>))"
| "round_double a = a"


section \<open>The pixel map and the drizzle parameters\<close>

text \<open>
  The pixel map is a numpy array of shape \<open>(ndim0, ndim1, 2)\<close>: the cell in row \<open>j\<close> and
  column \<open>i\<close> holds the output-frame coordinates of the input pixel \<open>(i, j)\<close>.

  Modelled from the spec: the numpy accessors \<^verbatim>\<open>PyArray_DIMS\<close> and \<^verbatim>\<open>PyArray_GETPTR3\<close>
  and the macros \<^verbatim>\<open>get_pixmap\<close> and \<^verbatim>\<open>oob_pixel\<close> of \<^verbatim>\<open>cdrizzleutil.h\<close> are not part
  of the source file.  The spec describes the map as a read-only 2D grid addressed by
  integer (row, column) whose cells hold a pair of coordinates; \<open>cell pm j i\<close> is that pair,
  \<^verbatim>\<open>get_pixmap(pixmap, i, j)\<close> addresses column \<open>i\<close> of row \<open>j\<close>, and \<^verbatim>\<open>oob_pixel\<close> is a
  bounds assertion without effect on the result.
\<close>

record PyArrayObject =
  ndim0 :: int
  ndim1 :: int
  cell :: "int \<Rightarrow> int \<Rightarrow> double \<times> double"

definition get_pixmap :: "PyArrayObject \<Rightarrow> int \<Rightarrow> int \<Rightarrow> double \<times> double" where
  "get_pixmap pm xpix ypix = cell pm ypix xpix"

text \<open>The fields of \<^verbatim>\<open>struct driz_param_t\<close> that this file reads: the pixel map, the
  valid region of the input image, and the dimensions (rows, columns) of the output
  image \<^verbatim>\<open>output_data\<close>.\<close>

record driz_param_t =
  pixmap :: PyArrayObject
  xmin :: int
  xmax :: int
  ymin :: int
  ymax :: int
  output_ndim0 :: int
  output_ndim1 :: int

section \<open>Forward mapping\<close>

text \<open>The clamped base cell of \<^verbatim>\<open>interpolate_point\<close>: \<open>i0\<close> from \<open>xin\<close> and the number of
  columns, \<open>j0\<close> from \<open>yin\<close> and the number of rows.\<close>

definition clamp_base :: "int \<Rightarrow> double \<Rightarrow> int" where
  "clamp_base n a =
     (let i0 = int_of_double a; n2 = n - 2
      in if i0 < 0 then 0 else if i0 > n2 then n2 else i0)"

text \<open>\<^verbatim>\<open>interpolate_point\<close> returns its status together with the values written to
  \<^verbatim>\<open>*xout\<close> and \<^verbatim>\<open>*yout\<close>; both are written on every path.\<close>

definition interpolate_point ::
  "driz_param_t \<Rightarrow> double \<Rightarrow> double \<Rightarrow> int \<times> double \<times> double" where
  "interpolate_point par xin yin =
     (let pm = pixmap par;
          i0 = clamp_base (ndim1 pm) xin;
          j0 = clamp_base (ndim0 pm) yin;
          x = xin - double_of_int i0;
          y = yin - double_of_int j0;
          x1 = 1 - x;
          y1 = 1 - y;
          (f00, g00) = get_pixmap pm i0 j0;
          (f10, g10) = get_pixmap pm (i0 + 1) j0;
          (f01, g01) = get_pixmap pm i0 (j0 + 1);
          (f11, g11) = get_pixmap pm (i0 + 1) (j0 + 1);
          xout = f00 * x1 * y1 + f10 * x * y1 + f01 * x1 * y + f11 * x * y;
          yout = g00 * x1 * y1 + g10 * x * y1 + g01 * x1 * y + g11 * x * y
      in if npy_isnan xout \<or> npy_isnan yout then (1, xout, yout) else (0, xout, yout))"

text \<open>\<^verbatim>\<open>map_pixel\<close> fills \<^verbatim>\<open>xyout\<close> component by component and returns at the first
  not-a-number, leaving the second component as it was.\<close>

definition map_pixel ::
  "PyArrayObject \<Rightarrow> int \<Rightarrow> int \<Rightarrow> double \<times> double \<Rightarrow> int \<times> double \<times> double" where
  "map_pixel pm i j xyout =
     (let xy0 = fst (get_pixmap pm i j)
      in if npy_isnan xy0 then (1, xy0, snd xyout)
         else let xy1 = snd (get_pixmap pm i j)
              in if npy_isnan xy1 then (1, xy0, xy1) else (0, xy0, xy1))"

definition map_pixel_fwd :: "PyArrayObject \<Rightarrow> int \<Rightarrow> int \<Rightarrow> int \<times> double \<times> double" where
  "map_pixel_fwd pm i j =
     (let (x, y) = cell pm j i
      in (if npy_isnan x \<or> npy_isnan y then 1 else 0, x, y))"

text \<open>
  \<^verbatim>\<open>map_point\<close> declares the locals \<^verbatim>\<open>xout\<close> and \<^verbatim>\<open>yout\<close> without initialising them;
  only the interpolation branch assigns them, and the function ends with
  \<^verbatim>\<open>xyout[0] = xout; xyout[1] = yout;\<close> on both branches.  The indeterminate initial
  contents of the two locals are the argument \<open>locals\<close>; \<open>xyout\<close> is the content of the
  output array on entry.  The result is the status and the output array on return.
\<close>

definition map_point ::
  "driz_param_t \<Rightarrow> double \<times> double \<Rightarrow> double \<times> double \<Rightarrow> double \<times> double
     \<Rightarrow> int \<times> double \<times> double" where
  "map_point par xyin xyout locals =
     (let xin = fst xyin; yin = snd xyin;
          i = int_of_double (fst xyin);
          j = int_of_double (snd xyin)
      in if deq (double_of_int i) (fst xyin) \<and> deq (double_of_int j) (snd xyin) then
           if i \<ge> xmin par \<and> i \<le> xmax par \<and> j \<ge> ymin par \<and> j \<le> ymax par then
             let (status, xyout') = map_pixel (pixmap par) i j xyout
             in (status, locals)
           else (1, xyout)
         else
           let (status, xout, yout) = interpolate_point par xin yin
           in (status, xout, yout))"

definition map_point_new :: "driz_param_t \<Rightarrow> double \<Rightarrow> double \<Rightarrow> int \<times> double \<times> double" where
  "map_point_new par xin yin =
     (let i = int_of_double xin; j = int_of_double yin
      in if deq (double_of_int i) xin \<and> deq (double_of_int j) yin then
           map_pixel_fwd (pixmap par) i j
         else interpolate_point par xin yin)"

text \<open>A pixel map of 4 rows and 5 columns that maps every pixel to itself, except that
  the cell in row 2 and column 3 stores the point (10, 20); the whole grid is valid.\<close>

definition grid_pixmap :: PyArrayObject where
  "grid_pixmap =
     \<lparr>ndim0 = 4, ndim1 = 5,
      cell = (\<lambda>j i. if j = 2 \<and> i = 3 then (10, 20) else (double_of_int i, double_of_int j))\<rparr>"

definition grid_par :: driz_param_t where
  "grid_par =
     \<lparr>pixmap = grid_pixmap, xmin = 0, xmax = 4, ymin = 0, ymax = 3,
      output_ndim0 = 4, output_ndim1 = 5\<rparr>"

section \<open>Inverse mapping\<close>

definition MAX_INV_ERR :: double where
  "MAX_INV_ERR = 0.03"

text \<open>\<^verbatim>\<open>eval_inversion\<close> returns 1 without writing \<^verbatim>\<open>*dist2\<close> when the interpolation is
  undefined (\<open>None\<close>), and 0 with the squared distance written otherwise.\<close>

definition eval_inversion ::
  "driz_param_t \<Rightarrow> double \<Rightarrow> double \<Rightarrow> double \<times> double \<Rightarrow> double option" where
  "eval_inversion par x y xyref =
     (let (status, xout, yout) = interpolate_point par x y
      in if status \<noteq> 0 then None
         else let dx = xout - fst xyref; dy = yout - snd xyref
              in Some (dx * dx + dy * dy))"

text \<open>The variables of \<^verbatim>\<open>invert_pixmap\<close> that live across iterations of its loop: the
  bracketing rectangle, the widths \<^verbatim>\<open>dx\<close> and \<^verbatim>\<open>dy\<close>, and the iteration counter.\<close>

record bracket =
  b_xmin :: double
  b_xmax :: double
  b_ymin :: double
  b_ymax :: double
  b_dx :: double
  b_dy :: double
  b_niter :: int

definition gr :: double where
  "gr = 0.6180339887498948482"

definition nmax_iter :: int where
  "nmax_iter = 50"

text \<open>The state before the loop.  The source initialises \<^verbatim>\<open>dx\<close> and \<^verbatim>\<open>dy\<close> with
  \<^verbatim>\<open>xmax\<close> and \<^verbatim>\<open>ymax\<close>, not with the widths of the rectangle.\<close>

definition init_bracket :: "driz_param_t \<Rightarrow> bracket" where
  "init_bracket par =
     (let xmin' = double_of_int (xmin par) - 0.5;
          xmax' = double_of_int (xmax par) + 0.5;
          ymin' = double_of_int (ymin par) - 0.5;
          ymax' = double_of_int (ymax par) + 0.5
      in \<lparr>b_xmin = xmin', b_xmax = xmax', b_ymin = ymin', b_ymax = ymax',
          b_dx = xmax', b_dy = ymax', b_niter = 0\<rparr>)"

text \<open>The end of the loop body (lines 294 to 309): the quadrant of the sample with the
  strictly smallest distance is kept, the last one if no sample is strictly smallest, and
  \<^verbatim>\<open>dx\<close>, \<^verbatim>\<open>dy\<close> become the widths of the new rectangle.\<close>

definition golden_shrink ::
  "bracket \<Rightarrow> double \<Rightarrow> double \<Rightarrow> double \<Rightarrow> double
     \<Rightarrow> double \<Rightarrow> double \<Rightarrow> double \<Rightarrow> double \<Rightarrow> bracket" where
  "golden_shrink b x1 x2 y1 y2 d11 d12 d21 d22 =
     (let b = (if d11 < d12 \<and> d11 < d21 \<and> d11 < d22 then b\<lparr>b_xmax := x2, b_ymax := y2\<rparr>
               else if d12 < d11 \<and> d12 < d21 \<and> d12 < d22 then b\<lparr>b_xmax := x2, b_ymin := y1\<rparr>
               else if d21 < d11 \<and> d21 < d12 \<and> d21 < d22 then b\<lparr>b_xmin := x1, b_ymax := y2\<rparr>
               else b\<lparr>b_xmin := x1, b_ymin := y1\<rparr>)
      in b\<lparr>b_dx := b_xmax b - b_xmin b, b_dy := b_ymax b - b_ymin b\<rparr>)"

text \<open>One execution of the loop body.  \<open>Inl\<close> is the \<^verbatim>\<open>return 1\<close> of a failed evaluation,
  with the state at that moment (the counter already incremented).\<close>

definition golden_body ::
  "driz_param_t \<Rightarrow> double \<times> double \<Rightarrow> bracket \<Rightarrow> bracket + bracket" where
  "golden_body par xyout b =
     (let b = b\<lparr>b_niter := b_niter b + 1\<rparr>;
          x1 = b_xmax b - gr * b_dx b;
          x2 = b_xmin b + gr * b_dx b;
          y1 = b_ymax b - gr * b_dy b;
          y2 = b_ymin b + gr * b_dy b
      in case eval_inversion par x1 y1 xyout of None \<Rightarrow> Inl b | Some d11 \<Rightarrow>
        (case eval_inversion par x1 y2 xyout of None \<Rightarrow> Inl b | Some d12 \<Rightarrow>
        (case eval_inversion par x2 y1 xyout of None \<Rightarrow> Inl b | Some d21 \<Rightarrow>
        (case eval_inversion par x2 y2 xyout of None \<Rightarrow> Inl b | Some d22 \<Rightarrow>
           Inr (golden_shrink b x1 x2 y1 y2 d11 d12 d21 d22)))))"

definition golden_cond :: "bracket \<Rightarrow> bool" where
  "golden_cond b = ((b_dx b > MAX_INV_ERR \<or> b_dy b > MAX_INV_ERR) \<and> b_niter b < nmax_iter)"

function golden_loop ::
  "driz_param_t \<Rightarrow> double \<times> double \<Rightarrow> bracket \<Rightarrow> bracket + bracket" where
  "golden_loop par xyout b =
     (if golden_cond b then
        case golden_body par xyout b of
          Inl b' \<Rightarrow> Inl b'
        | Inr b' \<Rightarrow> golden_loop par xyout b'
      else Inr b)"
  by pat_completeness auto
termination
proof (relation "measure (\<lambda>(par, xyout, b). nat (nmax_iter - b_niter b))")
  show "wf (measure (\<lambda>(par, xyout, b). nat (nmax_iter - b_niter b)))"
    by simp
next
  fix par :: driz_param_t and xyout :: "double \<times> double" and b b' :: bracket
  assume c: "golden_cond b" and s: "golden_body par xyout b = Inr b'"
  have "b_niter (golden_shrink c x1 x2 y1 y2 d11 d12 d21 d22) = b_niter c"
    for c x1 x2 y1 y2 d11 d12 d21 d22
    by (simp add: golden_shrink_def Let_def)
  with s have "b_niter b' = b_niter b + 1"
    by (auto simp add: golden_body_def Let_def split: option.splits)
  with c show "((par, xyout, b'), (par, xyout, b))
      \<in> measure (\<lambda>(par, xyout, b). nat (nmax_iter - b_niter b))"
    by (simp add: golden_cond_def)
qed

declare golden_loop.simps [simp del]

text \<open>\<^verbatim>\<open>invert_pixmap\<close> returns its status and the content of \<^verbatim>\<open>xyin\<close> on return; the
  argument \<open>xyin\<close> is the content on entry, which a \<^verbatim>\<open>return 1\<close> inside the loop leaves
  untouched.\<close>

definition invert_pixmap ::
  "driz_param_t \<Rightarrow> double \<times> double \<Rightarrow> double \<times> double \<Rightarrow> int \<times> double \<times> double" where
  "invert_pixmap par xyout xyin =
     (case golden_loop par xyout (init_bracket par) of
        Inl b \<Rightarrow> (1, xyin)
      | Inr b \<Rightarrow>
          (if b_niter b = nmax_iter then 1 else 0,
           0.5 * (b_xmin b + b_xmax b), 0.5 * (b_ymin b + b_ymax b)))"

text \<open>All coordinates and widths of a bracket are finite numbers.\<close>

definition bracket_finite :: "bracket \<Rightarrow> bool" where
  "bracket_finite b \<longleftrightarrow> isfinite (b_xmin b) \<and> isfinite (b_xmax b) \<and> isfinite (b_ymin b) \<and>
     isfinite (b_ymax b) \<and> isfinite (b_dx b) \<and> isfinite (b_dy b)"

text \<open>The bracket after \<open>n\<close> executions of the loop body from \<open>b\<close>, if none of them fails.\<close>

fun golden_steps ::
  "driz_param_t \<Rightarrow> double \<times> double \<Rightarrow> nat \<Rightarrow> bracket \<Rightarrow> bracket option" where
  "golden_steps par xyout 0 b = Some b"
| "golden_steps par xyout (Suc n) b =
     (case golden_body par xyout b of Inl b' \<Rightarrow> None | Inr b' \<Rightarrow> golden_steps par xyout n b')"

text \<open>A pixel map of 2 rows and 2 columns that sends every input pixel to the output
  point (0, 0), with the single pixel (0, 0) as the valid region.\<close>

definition flat_pixmap :: PyArrayObject where
  "flat_pixmap = \<lparr>ndim0 = 2, ndim1 = 2, cell = (\<lambda>j i. (0, 0))\<rparr>"

definition flat_par :: driz_param_t where
  "flat_par =
     \<lparr>pixmap = flat_pixmap, xmin = 0, xmax = 0, ymin = 0, ymax = 0,
      output_ndim0 = 2, output_ndim1 = 2\<rparr>"

text \<open>A bracket whose widths are within the tolerance.\<close>

definition narrow_bracket :: bracket where
  "narrow_bracket =
     \<lparr>b_xmin = 0.49, b_xmax = 0.5, b_ymin = 0.49, b_ymax = 0.5,
      b_dx = 0.01, b_dy = 0.01, b_niter = 7\<rparr>"

section \<open>Polygons\<close>

definition VERTEX_ATOL :: double where
  "VERTEX_ATOL = Fin (1 / 10 ^ 12)"

text \<open>\<^verbatim>\<open>DBL_MIN\<close> of \<^verbatim>\<open>float.h\<close>, the smallest positive normal double.\<close>

definition DBL_MIN :: double where
  "DBL_MIN = Fin (1 / 2 ^ 1022)"

definition APPROX_ZERO :: double where
  "APPROX_ZERO = 1000 * DBL_MIN"

text \<open>Modelled from the spec: \<^verbatim>\<open>cdrizzlemap.h\<close>, which declares \<^verbatim>\<open>struct vertex\<close>,
  \<^verbatim>\<open>struct polygon\<close> and the constant \<^verbatim>\<open>IMAGE_OUTLINE_NPTS\<close>, is not part of the source
  file.  The spec gives the capacity of a polygon as 2 * 8 = 16 vertices, a vertex as a
  pair of coordinates, and a polygon as a fixed array of vertices with a vertex count.\<close>

definition IMAGE_OUTLINE_NPTS :: int where
  "IMAGE_OUTLINE_NPTS = 8"

record vertex =
  vx :: double
  vy :: double

text \<open>\<open>v\<close> is the whole array of \<open>2 * IMAGE_OUTLINE_NPTS\<close> slots; the slots from \<open>npv\<close> on
  hold whatever was stored there last.\<close>

record polygon =
  v :: "vertex list"
  npv :: int

definition wf_polygon :: "polygon \<Rightarrow> bool" where
  "wf_polygon p \<longleftrightarrow>
     int (length (v p)) = 2 * IMAGE_OUTLINE_NPTS \<and> 0 \<le> npv p \<and> npv p \<le> 2 * IMAGE_OUTLINE_NPTS"

text \<open>\<^verbatim>\<open>mod(a, b)\<close> is \<^verbatim>\<open>(a + b) % b\<close>, with the remainder of C, which truncates
  towards zero and takes the sign of the dividend.\<close>

definition c_rem :: "int \<Rightarrow> int \<Rightarrow> int" where
  "c_rem a b = a - b * (sgn a * sgn b * (\<bar>a\<bar> div \<bar>b\<bar>))"

definition mod_c :: "int \<Rightarrow> int \<Rightarrow> int" where
  "mod_c a b = c_rem (a + b) b"

definition equal_vertices :: "vertex \<Rightarrow> vertex \<Rightarrow> double \<Rightarrow> bool" where
  "equal_vertices a b atol \<longleftrightarrow> fabs (vx a - vx b) < atol \<and> fabs (vy a - vy b) < atol"

definition area :: "vertex \<Rightarrow> vertex \<Rightarrow> double" where
  "area a b = vx a * vy b - vy a * vx b"

definition is_point_in_hp :: "vertex \<Rightarrow> vertex \<Rightarrow> vertex \<Rightarrow> bool" where
  "is_point_in_hp pt v' w \<longleftrightarrow> area w pt - area v' pt - area w v' \<ge> - APPROX_ZERO"

definition is_point_strictly_in_hp :: "vertex \<Rightarrow> vertex \<Rightarrow> vertex \<Rightarrow> bool" where
  "is_point_strictly_in_hp pt v' w \<longleftrightarrow> area w pt - area v' pt - area w v' > APPROX_ZERO"

text \<open>\<^verbatim>\<open>is_poly_contained\<close>: every vertex of \<open>p\<close> lies in the half-plane of every edge of
  \<open>q\<close>; the edge number \<open>i\<close> of \<open>q\<close> runs from vertex \<open>i - 1\<close> (the last vertex for
  \<open>i = 0\<close>) to vertex \<open>i\<close>.\<close>

definition is_poly_contained :: "polygon \<Rightarrow> polygon \<Rightarrow> bool" where
  "is_poly_contained p q \<longleftrightarrow>
     list_all (\<lambda>i.
       list_all (\<lambda>j.
         is_point_in_hp (v p ! j) (v q ! (if i = 0 then nat (npv q - 1) else i - 1)) (v q ! i))
       [0..<nat (npv p)])
     [0..<nat (npv q)]"

text \<open>\<^verbatim>\<open>append_vertex\<close> returns its status and the polygon after the call.\<close>

definition append_vertex :: "polygon \<Rightarrow> vertex \<Rightarrow> int \<times> polygon" where
  "append_vertex p w =
     (if npv p > 0 \<and> equal_vertices (v p ! nat (npv p - 1)) w VERTEX_ATOL then (0, p)
      else if npv p > 0 \<and> equal_vertices (v p ! 0) w VERTEX_ATOL then (1, p)
      else if npv p \<ge> 2 * IMAGE_OUTLINE_NPTS then (1, p)
      else (0, p\<lparr>v := (v p)[nat (npv p) := w], npv := npv p + 1\<rparr>))"

text \<open>The loop of \<^verbatim>\<open>simplify_polygon\<close>.  The three pointers are indices into the array of
  \<open>p\<close>; \<open>pqhull\<close> is the filled part of the array of the local polygon of that name.\<close>

function simplify_loop ::
  "polygon \<Rightarrow> int \<Rightarrow> int \<Rightarrow> int \<Rightarrow> int \<Rightarrow> vertex list \<Rightarrow> vertex list" where
  "simplify_loop p k pv' pv pvnxt pqhull =
     (if k < npv p then
        (let a = v p ! nat pv'; b = v p ! nat pv; c = v p ! nat pvnxt;
             dp = \<lparr>vx = vx c - vx a, vy = vy c - vy a\<rparr>;
             dq = \<lparr>vx = vx b - vx a, vy = vy b - vy a\<rparr>;
             pqhull = (if fabs (area dp dq) > APPROX_ZERO \<and>
                        dsqrt (vx dp * vx dp + vy dp * vy dp) > VERTEX_ATOL
                     then pqhull @ [b] else pqhull)
         in simplify_loop p (k + 1) pv pvnxt (mod_c (2 + k) (npv p)) pqhull)
      else pqhull)"
  by pat_completeness auto
termination
  by (relation "measure (\<lambda>(p, k, pv', pv, pvnxt, pqhull). nat (npv p - k))") auto

declare simplify_loop.simps [simp del]

definition simplify_polygon :: "polygon \<Rightarrow> polygon" where
  "simplify_polygon p =
     (if npv p < 3 then p
      else let pqhull = simplify_loop p 0 (npv p - 1) 0 1 []
           in p\<lparr>npv := int (length pqhull), v := pqhull @ drop (length pqhull) (v p)\<rparr>)"

text \<open>
  \<^verbatim>\<open>orient_ccw\<close> declares the local \<^verbatim>\<open>cm\<close> without initialising it and then accumulates
  the vertices into it.  The indeterminate initial content of \<^verbatim>\<open>cm\<close> is the argument
  \<open>cm\<close> of the model.
\<close>

definition swap_vertices :: "vertex list \<Rightarrow> int \<Rightarrow> int \<Rightarrow> vertex list" where
  "swap_vertices vs k m = (let v1 = vs ! nat k in (vs[nat k := vs ! nat m])[nat m := v1])"

definition orient_ccw :: "vertex \<Rightarrow> polygon \<Rightarrow> polygon" where
  "orient_ccw cm p =
     (if npv p < 3 then p
      else
        let cm = fold (\<lambda>k cm. \<lparr>vx = vx cm + vx (v p ! k), vy = vy cm + vy (v p ! k)\<rparr>)
                   [0..<nat (npv p)] cm;
            cm = \<lparr>vx = vx cm / double_of_int (npv p), vy = vy cm / double_of_int (npv p)\<rparr>;
            v1 = v p ! 0;
            v2 = v p ! 1;
            v1 = \<lparr>vx = vx v1 - vx cm, vy = vy v1 - vy cm\<rparr>;
            v2 = \<lparr>vx = vx v2 - vx cm, vy = vy v2 - vy cm\<rparr>
        in if area v1 v2 \<ge> 0 then p
           else p\<lparr>v := fold (\<lambda>k vs. swap_vertices vs (int k) (npv p - 1 - int k))
                          [0..<nat (npv p div 2)] (v p)\<rparr>)"

section \<open>Intersection of convex polygons\<close>

text \<open>The variables of the edge-tracing loop of \<^verbatim>\<open>intersect_convex_polygons\<close> that live
  across iterations.  The pointers \<^verbatim>\<open>pv\<close>, \<^verbatim>\<open>pv_\<close> into the array of \<open>p\<close> and \<^verbatim>\<open>qv\<close>,
  \<^verbatim>\<open>qv_\<close> into the array of \<open>q\<close> are kept as indices.\<close>

record trace =
  t_ip :: int
  t_iq :: int
  t_first_k :: int
  t_inside :: int
  t_pv :: int
  t_pv' :: int
  t_qv :: int
  t_qv' :: int
  t_first_intersect :: vertex
  t_pq :: polygon

datatype 'a step = Break 'a | Continue 'a

text \<open>\<^verbatim>\<open>if (append_vertex(pq, w)) break;\<close>\<close>

definition emit :: "trace \<Rightarrow> vertex \<Rightarrow> trace step" where
  "emit st w =
     (case append_vertex (t_pq st) w of
        (status, pq) \<Rightarrow> if status \<noteq> 0 then Break (st\<lparr>t_pq := pq\<rparr>) else Continue (st\<lparr>t_pq := pq\<rparr>))"

text \<open>The two advance steps, written six times in the source:
  \<^verbatim>\<open>ip += 1; pv_ = pv; pv = p->v + mod(ip, n);\<close> and the same for \<open>q\<close>.  The modulus \<open>n\<close> is
  an argument because the last advance of \<open>p\<close> (line 607) passes \<^verbatim>\<open>q->npv\<close>.\<close>

definition advance_p :: "int \<Rightarrow> trace \<Rightarrow> trace" where
  "advance_p n st =
     st\<lparr>t_ip := t_ip st + 1, t_pv' := t_pv st, t_pv := mod_c (t_ip st + 1) n\<rparr>"

definition advance_q :: "int \<Rightarrow> trace \<Rightarrow> trace" where
  "advance_q n st =
     st\<lparr>t_iq := t_iq st + 1, t_qv' := t_qv st, t_qv := mod_c (t_iq st + 1) n\<rparr>"

text \<open>Lines 537 to 562: an intersection point of the two current edges is recorded.\<close>

definition record_intersection ::
  "trace \<Rightarrow> int \<Rightarrow> vertex \<Rightarrow> vertex \<Rightarrow> double \<Rightarrow> double \<Rightarrow> double \<Rightarrow> bool \<Rightarrow> bool
     \<Rightarrow> trace step" where
  "record_intersection st k pv' pv t u d pv_in_hpdq qv_in_hpdp =
     (if 0 \<le> t \<and> t \<le> d \<and> 0 \<le> u \<and> u \<le> d \<and> d > APPROX_ZERO then
        (let t = t / d;
             u = u / d;
             vi = \<lparr>vx = vx pv' + (vx pv - vx pv') * t, vy = vy pv' + (vy pv - vy pv') * t\<rparr>;
             r = (if t_first_k st < 0 then
                    emit (st\<lparr>t_first_intersect := vi, t_first_k := k\<rparr>) vi
                  else if equal_vertices (t_first_intersect st) vi VERTEX_ATOL then
                    (if k > t_first_k st + 1 then Break st else Continue (st\<lparr>t_first_k := k\<rparr>))
                  else emit st vi)
         in case r of
              Break st \<Rightarrow> Break st
            | Continue st \<Rightarrow>
                Continue (if pv_in_hpdq then st\<lparr>t_inside := 1\<rparr>
                          else if qv_in_hpdp then st\<lparr>t_inside := - 1\<rparr>
                          else st))
      else Continue st)"

text \<open>Lines 564 to 609: one of the two edge cursors advances, after the vertex it leaves
  has been appended when it belongs to the polygon that is currently inside.\<close>

definition advance ::
  "polygon \<Rightarrow> polygon \<Rightarrow> trace \<Rightarrow> vertex \<Rightarrow> vertex \<Rightarrow> double \<Rightarrow> double \<Rightarrow> bool \<Rightarrow> bool
     \<Rightarrow> trace step" where
  "advance p q st pv qv d signed_area pv_in_hpdq qv_in_hpdp =
     (if d < Fin (1 / 10 ^ 12) \<and> \<not> pv_in_hpdq \<and> \<not> qv_in_hpdp then
        (if t_inside st = 1 then Continue (advance_q (npv q) st)
         else Continue (advance_p (npv p) st))
      else if signed_area \<ge> 0 then
        (if qv_in_hpdp then
           (case (if t_inside st = 1 then emit st pv else Continue st) of
              Break st \<Rightarrow> Break st
            | Continue st \<Rightarrow> Continue (advance_p (npv p) st))
         else
           (case (if t_inside st = - 1 then emit st qv else Continue st) of
              Break st \<Rightarrow> Break st
            | Continue st \<Rightarrow> Continue (advance_q (npv q) st)))
      else
        (if pv_in_hpdq then
           (case (if t_inside st = - 1 then emit st qv else Continue st) of
              Break st \<Rightarrow> Break st
            | Continue st \<Rightarrow> Continue (advance_q (npv q) st))
         else
           (case (if t_inside st = 1 then emit st pv else Continue st) of
              Break st \<Rightarrow> Break st
            | Continue st \<Rightarrow> Continue (advance_p (npv q) st))))"

text \<open>One execution of the loop body, for the loop counter \<open>k\<close>.\<close>

definition trace_body :: "polygon \<Rightarrow> polygon \<Rightarrow> int \<Rightarrow> trace \<Rightarrow> trace step" where
  "trace_body p q k st =
     (let pv = v p ! nat (t_pv st);
          pv' = v p ! nat (t_pv' st);
          qv = v q ! nat (t_qv st);
          qv' = v q ! nat (t_qv' st);
          dp = \<lparr>vx = vx pv - vx pv', vy = vy pv - vy pv'\<rparr>;
          dq = \<lparr>vx = vx qv - vx qv', vy = vy qv - vy qv'\<rparr>;
          t = (vy pv' - vy qv') * vx dq - (vx pv' - vx qv') * vy dq;
          u = (vy pv' - vy qv') * vx dp - (vx pv' - vx qv') * vy dp;
          signed_area = area dp dq;
          (t, u, d) = (if signed_area \<ge> 0 then (t, u, signed_area)
                       else (- t, - u, - signed_area));
          pv_in_hpdq = is_point_strictly_in_hp qv' qv pv;
          qv_in_hpdp = is_point_strictly_in_hp pv' pv qv
      in case record_intersection st k pv' pv t u d pv_in_hpdq qv_in_hpdp of
           Break st \<Rightarrow> Break st
         | Continue st \<Rightarrow> advance p q st pv qv d signed_area pv_in_hpdq qv_in_hpdp)"

text \<open>The loop \<^verbatim>\<open>for (k = 0; k <= 2 * (p->npv + q->npv); k++)\<close>.  The first component of
  the result counts the executions of the loop body; the second is the state on exit.\<close>

function trace_loop :: "polygon \<Rightarrow> polygon \<Rightarrow> int \<Rightarrow> trace \<Rightarrow> nat \<times> trace" where
  "trace_loop p q k st =
     (if k \<le> 2 * (npv p + npv q) then
        (case trace_body p q k st of
           Break st \<Rightarrow> (1, st)
         | Continue st \<Rightarrow> (case trace_loop p q (k + 1) st of (n, st) \<Rightarrow> (n + 1, st)))
      else (0, st))"
  by pat_completeness auto
termination
  by (relation "measure (\<lambda>(p, q, k, st). nat (2 * (npv p + npv q) + 1 - k))") auto

declare trace_loop.simps [simp del]

text \<open>The state before the loop.  \<^verbatim>\<open>first_intersect\<close> is not initialised in the source;
  it is read only after \<^verbatim>\<open>first_k\<close> has become non-negative, which happens together with
  its first assignment, so the origin stands for its indeterminate content.\<close>

definition init_trace :: "polygon \<Rightarrow> polygon \<Rightarrow> polygon \<Rightarrow> trace" where
  "init_trace p q pq =
     \<lparr>t_ip = 0, t_iq = 0, t_first_k = - 2, t_inside = 0,
      t_pv = 0, t_pv' = npv p - 1, t_qv = 0, t_qv' = npv q - 1,
      t_first_intersect = \<lparr>vx = 0, vy = 0\<rparr>, t_pq = pq\<lparr>npv := 0\<rparr>\<rparr>"

text \<open>\<^verbatim>\<open>intersect_convex_polygons\<close> reorients \<open>p\<close> and \<open>q\<close> in place and writes \<open>pq\<close>; the
  result is the status and the three polygons on return.  \<open>cmp\<close> and \<open>cmq\<close> are the
  indeterminate initial contents of the local \<^verbatim>\<open>cm\<close> in the two calls of
  \<^verbatim>\<open>orient_ccw\<close>.\<close>

definition intersect_convex_polygons ::
  "vertex \<Rightarrow> vertex \<Rightarrow> polygon \<Rightarrow> polygon \<Rightarrow> polygon \<Rightarrow> int \<times> polygon \<times> polygon \<times> polygon" where
  "intersect_convex_polygons cmp cmq p q pq =
     (if npv p < 3 \<or> npv q < 3 then (1, p, q, pq)
      else
        let p = orient_ccw cmp p;
            q = orient_ccw cmq q
        in if is_poly_contained p q then (0, p, q, simplify_polygon p)
           else if is_poly_contained q p then (0, p, q, simplify_polygon q)
           else (0, p, q, simplify_polygon (t_pq (snd (trace_loop p q 0 (init_trace p q pq))))))"

text \<open>The state of the loop after \<open>n\<close> executions of its body, starting with the loop
  counter \<open>k\<close>; \<open>Break\<close> if the loop has been left before.\<close>

fun trace_steps :: "polygon \<Rightarrow> polygon \<Rightarrow> nat \<Rightarrow> int \<Rightarrow> trace \<Rightarrow> trace step" where
  "trace_steps p q 0 k st = Continue st"
| "trace_steps p q (Suc n) k st =
     (if k \<le> 2 * (npv p + npv q) then
        (case trace_body p q k st of
           Break st \<Rightarrow> Break st
         | Continue st \<Rightarrow> trace_steps p q n (k + 1) st)
      else Break st)"

text \<open>Example polygons: the listed vertices, followed by unused slots up to the
  capacity.\<close>

definition polygon_of :: "(real \<times> real) list \<Rightarrow> polygon" where
  "polygon_of xs =
     \<lparr>v = map (\<lambda>(a, b). \<lparr>vx = Fin a, vy = Fin b\<rparr>) xs @
          replicate (nat (2 * IMAGE_OUTLINE_NPTS) - length xs) \<lparr>vx = 0, vy = 0\<rparr>,
      npv = int (length xs)\<rparr>"

definition origin :: vertex where
  "origin = \<lparr>vx = 0, vy = 0\<rparr>"

definition triangle_a :: polygon where
  "triangle_a = polygon_of [(0, 0), (1, 0), (0, 1)]"

definition triangle_b :: polygon where
  "triangle_b = polygon_of [(5, 5), (6, 5), (5, 6)]"

definition square_b :: polygon where
  "square_b = polygon_of [(5, 5), (6, 5), (6, 6), (5, 6)]"

text \<open>The polygon under construction is well formed, whether the step breaks or not.\<close>

definition step_wf :: "trace step \<Rightarrow> bool" where
  "step_wf r = (case r of Break s \<Rightarrow> wf_polygon (t_pq s) | Continue s \<Rightarrow> wf_polygon (t_pq s))"

definition square_a :: polygon where
  "square_a = polygon_of [(0, 0), (4, 0), (4, 4), (0, 4)]"

text \<open>A polygon that uses all 16 slots, and a vertex away from all of its vertices.\<close>

definition full_polygon :: polygon where
  "full_polygon =
     polygon_of [(0, 0), (1, 1), (2, 4), (3, 9), (4, 16), (5, 25), (6, 36), (7, 49),
       (8, 64), (9, 81), (10, 100), (11, 121), (12, 144), (13, 169), (14, 196), (15, 225)]"

definition far_vertex :: vertex where
  "far_vertex = \<lparr>vx = 100, vy = 100\<rparr>"

section \<open>The scanline scanner\<close>

text \<open>Modelled from the spec: \<^verbatim>\<open>struct edge\<close> and \<^verbatim>\<open>struct scanner\<close> are declared in
  \<^verbatim>\<open>cdrizzlemap.h\<close>, which is not part of the source file.  The fields are those the
  source file assigns and reads: an edge has its two end points, the side tag \<open>p\<close>, the
  slope \<open>m\<close> and the offsets \<open>b\<close> and \<open>c\<close>; a scanner has two arrays of edges of the capacity
  of a polygon, a cursor into each (a null pointer is \<open>None\<close>), the lengths of the two
  chains, the y-range of the polygon, the clip bounds and a validity flag.\<close>

record edge =
  e_v1 :: vertex
  e_v2 :: vertex
  e_p :: int
  e_m :: double
  e_b :: double
  e_c :: double

record scanner =
  left_edges :: "edge list"
  right_edges :: "edge list"
  left :: "int option"
  right :: "int option"
  nleft :: int
  nright :: int
  min_y :: double
  max_y :: double
  s_xmin :: int
  s_xmax :: int
  s_ymin :: int
  s_ymax :: int
  overlap_valid :: int

definition init_edge :: "vertex \<Rightarrow> vertex \<Rightarrow> int \<Rightarrow> edge" where
  "init_edge v1 v2 position =
     (let m = (vx v2 - vx v1) / (vy v2 - vy v1);
          b = (vx v1 * vy v2 - vy v1 * vx v2) / (vy v2 - vy v1);
          c = b - copysign (0.5 + 0.5 * fabs m) (double_of_int position)
      in \<lparr>e_v1 = v1, e_v2 = v2, e_p = position, e_m = m, e_b = b, e_c = c\<rparr>)"

text \<open>The two search loops of \<^verbatim>\<open>init_scanner\<close>: the index and the ordinate of the first
  lowest (highest) vertex.\<close>

definition find_min :: "polygon \<Rightarrow> int \<times> double" where
  "find_min p =
     fold (\<lambda>k (min_left, min_y).
             if vy (v p ! k) < min_y then (int k, vy (v p ! k)) else (min_left, min_y))
       [1..<nat (npv p)] (0, vy (v p ! 0))"

definition find_max :: "polygon \<Rightarrow> int \<times> double" where
  "find_max p =
     fold (\<lambda>k (max_right, max_y).
             if vy (v p ! k) > max_y then (int k, vy (v p ! k)) else (max_right, max_y))
       [1..<nat (npv p)] (0, vy (v p ! 0))"

text \<open>\<^verbatim>\<open>init_scanner\<close> returns its status and the scanner after the call.  When the polygon
  has fewer than 3 vertices only the cursors, the chain lengths and the validity flag are
  written: the other fields keep the content they had on entry.\<close>

definition init_scanner :: "polygon \<Rightarrow> scanner \<Rightarrow> driz_param_t \<Rightarrow> int \<times> scanner" where
  "init_scanner p s par =
     (let s = s\<lparr>left := None, right := None, nleft := 0, nright := 0\<rparr>
      in if npv p < 3 then (1, s\<lparr>overlap_valid := 0\<rparr>)
         else
           let (min_left, min_y') = find_min p;
               i1 = mod_c (min_left - 1) (npv p);
               i2 = mod_c (min_left + 1) (npv p);
               min_right = (if vy (v p ! nat i1) < vy (v p ! nat i2) then i1 else i2);
               (min_left, min_right) =
                 (if vy (v p ! nat min_right) \<le> min_y' * (1 + copysign VERTEX_ATOL min_y') then
                    (if vx (v p ! nat min_left) > vx (v p ! nat min_right)
                     then (min_right, min_left) else (min_left, min_right))
                  else (min_left, min_left));
               (max_right, max_y') = find_max p;
               i1 = mod_c (max_right - 1) (npv p);
               i2 = mod_c (max_right + 1) (npv p);
               max_left = (if vy (v p ! nat i1) > vy (v p ! nat i2) then i1 else i2);
               (max_left, max_right) =
                 (if vy (v p ! nat max_left) \<ge> max_y' * (1 - copysign VERTEX_ATOL max_y') then
                    (if vx (v p ! nat max_left) > vx (v p ! nat max_right)
                     then (max_right, max_left) else (max_left, max_right))
                  else (max_right, max_right));
               min_left = (if max_left > min_left then min_left + npv p else min_left);
               nleft' = min_left - max_left;
               left_edges' =
                 fold (\<lambda>k es.
                         let i1 = mod_c (min_left - int k) (npv p);
                             i2 = mod_c (i1 - 1) (npv p)
                         in es[k := init_edge (v p ! nat i1) (v p ! nat i2) (- 1)])
                   [0..<nat nleft'] (left_edges s);
               max_right = (if max_right < min_right then max_right + npv p else max_right);
               nright' = max_right - min_right;
               right_edges' =
                 fold (\<lambda>k es.
                         let i1 = mod_c (min_right + int k) (npv p);
                             i2 = mod_c (i1 + 1) (npv p)
                         in es[k := init_edge (v p ! nat i1) (v p ! nat i2) 1])
                   [0..<nat nright'] (right_edges s)
           in (0, s\<lparr>left_edges := left_edges', right_edges := right_edges',
                    left := Some 0, right := Some 0, nleft := nleft', nright := nright',
                    min_y := min_y', max_y := max_y',
                    s_xmin := xmin par, s_xmax := xmax par,
                    s_ymin := ymin par, s_ymax := ymax par\<rparr>))"

text \<open>The four cursor loops of \<^verbatim>\<open>get_scanline_limits\<close> have one shape:
  \<^verbatim>\<open>while (test(cursor)) { if (cursor == last) { ...; return 1; } ++cursor; }\<close>.
  \<open>Ended\<close> is the \<^verbatim>\<open>return 1\<close>; \<open>Outside\<close> says that the cursor has left the array of
  edges, where the behaviour of the C program is undefined.\<close>

datatype cursor = At int | Ended | Outside

function skip_edges :: "(edge \<Rightarrow> bool) \<Rightarrow> edge list \<Rightarrow> int \<Rightarrow> int \<Rightarrow> cursor" where
  "skip_edges test es e_max i =
     (if i < 0 \<or> int (length es) \<le> i then Outside
      else if test (es ! nat i) then
        (if i = e_max then Ended else skip_edges test es e_max (i + 1))
      else At i)"
  by pat_completeness auto
termination
  by (relation "measure (\<lambda>(test, es, e_max, i). nat (int (length es) - i))") auto

declare skip_edges.simps [simp del]

text \<open>The reduction of the four candidate limits to one interval (lines 813 to 844); the
  result is the return code and the two values written to \<^verbatim>\<open>*x1\<close> and \<^verbatim>\<open>*x2\<close>.\<close>

definition scan_interval ::
  "scanner \<Rightarrow> double \<Rightarrow> double \<Rightarrow> double \<Rightarrow> double \<Rightarrow> int \<times> int \<times> int" where
  "scan_interval s xlb xrb xlt xrt =
     (let xmin' = double_of_int (s_xmin s);
          xmax' = double_of_int (s_xmax s);
          clip = (s_xmax s \<ge> s_xmin s);
          xlb = (if clip \<and> xlb < xmin' then xmin' else xlb);
          xlt = (if clip \<and> xlt < xmin' then xmin' else xlt);
          xrb = (if clip \<and> xrb > xmax' then xmax' else xrb);
          xrt = (if clip \<and> xrt > xmax' then xmax' else xrt)
      in if xlt \<ge> xrt then
           (if xlb \<ge> xrb then 3 else 0,
            int_of_double (round_double xlb), int_of_double (round_double xrb))
         else if xlb \<ge> xrb then
           (0, int_of_double (round_double xlt), int_of_double (round_double xrt))
         else
           (0, int_of_double (round_double (if xlb > xlt then xlb else xlt)),
            int_of_double (round_double (if xrb < xrt then xrb else xrt))))"

text \<open>\<^verbatim>\<open>get_scanline_limits\<close> returns its return code, the scanner after the call and the
  contents of \<^verbatim>\<open>*x1\<close> and \<^verbatim>\<open>*x2\<close>, which are the arguments \<open>x1\<close> and \<open>x2\<close> on the paths
  that do not write them.  The result is \<open>None\<close> when a cursor leaves its array of edges.
  \<open>scan_row\<close> is the part of the function after the two bounds checks (lines 763 to 844),
  for the pixel row from \<open>pyb\<close> to \<open>pyt\<close>.\<close>

definition scan_row ::
  "scanner \<Rightarrow> int \<Rightarrow> double \<Rightarrow> double \<Rightarrow> int \<Rightarrow> int \<Rightarrow> (int \<times> scanner \<times> int \<times> int) option" where
  "scan_row s y pyb pyt x1 x2 =
     (let el_max = nleft s - 1;
          er_max = nright s - 1;
          ended = Some (1, s\<lparr>left := None, right := None\<rparr>, x1, x2)
      in case (left s, right s) of
           (None, r) \<Rightarrow> Some (1, s, x1, x2)
         | (Some l, None) \<Rightarrow> Some (1, s, x1, x2)
         | (Some l, Some r) \<Rightarrow>
            (case skip_edges (\<lambda>e. pyb > vy (e_v2 e)) (left_edges s) el_max l of
               Outside \<Rightarrow> None | Ended \<Rightarrow> ended
             | At l \<Rightarrow>
            (case skip_edges (\<lambda>e. pyb > vy (e_v2 e)) (right_edges s) er_max r of
               Outside \<Rightarrow> None | Ended \<Rightarrow> ended
             | At r \<Rightarrow>
               let xlb = e_m (left_edges s ! nat l) * double_of_int y
                         + e_c (left_edges s ! nat l) - MAX_INV_ERR;
                   xrb = e_m (right_edges s ! nat r) * double_of_int y
                         + e_c (right_edges s ! nat r) + MAX_INV_ERR
               in
            (case skip_edges (\<lambda>e. pyt > vy (e_v2 e) + 0.5 + MAX_INV_ERR)
                    (left_edges s) el_max l of
               Outside \<Rightarrow> None | Ended \<Rightarrow> ended
             | At l \<Rightarrow>
            (case skip_edges (\<lambda>e. pyt > vy (e_v2 e) + 0.5 + MAX_INV_ERR)
                    (right_edges s) er_max r of
               Outside \<Rightarrow> None | Ended \<Rightarrow> ended
             | At r \<Rightarrow>
               let xlt = e_m (left_edges s ! nat l) * double_of_int y
                         + e_c (left_edges s ! nat l) - MAX_INV_ERR;
                   xrt = e_m (right_edges s ! nat r) * double_of_int y
                         + e_c (right_edges s ! nat r) + MAX_INV_ERR;
                   (code, x1, x2) = scan_interval s xlb xrb xlt xrt
               in Some (code, s\<lparr>left := Some l, right := Some r\<rparr>, x1, x2))))))"

definition get_scanline_limits ::
  "scanner \<Rightarrow> int \<Rightarrow> int \<Rightarrow> int \<Rightarrow> (int \<times> scanner \<times> int \<times> int) option" where
  "get_scanline_limits s y x1 x2 =
     (if s_ymax s \<ge> s_ymin s \<and> (y < 0 \<or> y > s_ymax s) then Some (2, s, x1, x2)
      else
        let pyb = double_of_int y - 0.5;
            pyt = double_of_int y + 0.5
        in if pyt \<le> min_y s \<or> pyb \<ge> max_y s + 1 then Some (2, s, x1, x2)
           else scan_row s y pyb pyt x1 x2)"

section \<open>The overlap of an input image with the output image\<close>

text \<open>\<^verbatim>\<open>map_to_output_vertex\<close> returns its status and the vertex written through
  \<^verbatim>\<open>map_point_new\<close>, which writes both coordinates on every path.  The error message that
  the source sets is not modelled: \<^verbatim>\<open>init_image_scanner\<close> clears it before it returns.\<close>

definition map_to_output_vertex :: "driz_param_t \<Rightarrow> double \<Rightarrow> double \<Rightarrow> int \<times> vertex" where
  "map_to_output_vertex par x y =
     (let (status, xout, yout) = map_point_new par x y
      in (if status \<noteq> 0 then 1 else 0, \<lparr>vx = xout, vy = yout\<rparr>))"

text \<open>\<^verbatim>\<open>map_to_input_vertex\<close> writes the vertex only when the inversion succeeds; \<open>w\<close> is the
  content of the vertex on entry.  The local array \<^verbatim>\<open>xyin\<close> is read only after a
  successful inversion has written it, so the origin stands for its initial content.\<close>

definition map_to_input_vertex ::
  "driz_param_t \<Rightarrow> double \<Rightarrow> double \<Rightarrow> vertex \<Rightarrow> int \<times> vertex" where
  "map_to_input_vertex par x y w =
     (let (status, xin, yin) = invert_pixmap par (x, y) (0, 0)
      in if status \<noteq> 0 then (1, w) else (0, \<lparr>vx = xin, vy = yin\<rparr>))"

text \<open>The loop over the vertices of the intersection polygon (lines 939 to 944).  The
  result is \<open>False\<close>, with the vertices converted so far, when an inversion fails.\<close>

fun invert_vertices ::
  "driz_param_t \<Rightarrow> polygon \<Rightarrow> nat list \<Rightarrow> vertex list \<Rightarrow> bool \<times> vertex list" where
  "invert_vertices par pq [] vs = (True, vs)"
| "invert_vertices par pq (k # ks) vs =
     (case map_to_input_vertex par (vx (v pq ! k)) (vy (v pq ! k)) (vs ! k) of
        (status, w) \<Rightarrow>
          if status \<noteq> 0 then (False, vs) else invert_vertices par pq ks (vs[k := w]))"

text \<open>The four forward mappings of line 910 to 913, joined by \<^verbatim>\<open>||\<close>: a mapping is
  attempted only if all mappings before it have succeeded.\<close>

fun map_corners ::
  "driz_param_t \<Rightarrow> vertex list \<Rightarrow> nat list \<Rightarrow> vertex list \<Rightarrow> bool \<times> vertex list" where
  "map_corners par corners [] vs = (True, vs)"
| "map_corners par corners (k # ks) vs =
     (case map_to_output_vertex par (vx (corners ! k)) (vy (corners ! k)) of
        (status, w) \<Rightarrow>
          if status \<noteq> 0 then (False, vs[k := w]) else map_corners par corners ks (vs[k := w]))"

text \<open>
  The first part of \<^verbatim>\<open>init_image_scanner\<close>, up to the label \<^verbatim>\<open>_setup_scanner\<close>: the scanner
  with its validity flag set, and the polygon \<^verbatim>\<open>inpq\<close> that the scanner is then built
  from.  The local polygons are not initialised: \<open>junk\<close> is the indeterminate initial
  content of their vertex arrays, and \<open>cm1\<close>, \<open>cm2\<close>, \<open>cm3\<close> are the indeterminate initial
  contents of the local \<^verbatim>\<open>cm\<close> in the three calls of \<^verbatim>\<open>orient_ccw\<close>.
\<close>

definition overlap_polygon ::
  "vertex \<Rightarrow> vertex \<Rightarrow> vertex \<Rightarrow> vertex list \<Rightarrow> driz_param_t \<Rightarrow> scanner
     \<Rightarrow> scanner \<times> polygon" where
  "overlap_polygon cm1 cm2 cm3 junk par s =
     (let x0 = double_of_int (xmin par) - 0.5;
          y0 = double_of_int (ymin par) - 0.5;
          x1 = double_of_int (xmax par) + 0.5;
          y2 = double_of_int (ymax par) + 0.5;
          inpq = \<lparr>v = junk[0 := \<lparr>vx = x0, vy = y0\<rparr>, 1 := \<lparr>vx = x1, vy = y0\<rparr>,
                         2 := \<lparr>vx = x1, vy = y2\<rparr>, 3 := \<lparr>vx = x0, vy = y2\<rparr>],
                  npv = 4\<rparr>
      in case map_corners par (v inpq) [0, 1, 2, 3] junk of
           (False, pv) \<Rightarrow> (s\<lparr>overlap_valid := 0\<rparr>, inpq)
         | (True, pv) \<Rightarrow>
             let p = \<lparr>v = pv, npv = 4\<rparr>;
                 w = double_of_int (output_ndim1 par) - 0.5;
                 h = double_of_int (output_ndim0 par) - 0.5;
                 q = \<lparr>v = junk[0 := \<lparr>vx = - 0.5, vy = - 0.5\<rparr>, 1 := \<lparr>vx = w, vy = - 0.5\<rparr>,
                              2 := \<lparr>vx = w, vy = h\<rparr>, 3 := \<lparr>vx = - 0.5, vy = h\<rparr>],
                      npv = 4\<rparr>
             in case intersect_convex_polygons cm1 cm2 p q \<lparr>v = junk, npv = 0\<rparr> of
                  (status, p, q, pq) \<Rightarrow>
                    if status \<noteq> 0 then (s\<lparr>overlap_valid := 0\<rparr>, inpq)
                    else
                      (case invert_vertices par pq [0..<nat (npv pq)] (v inpq) of
                         (False, vs) \<Rightarrow> (s\<lparr>overlap_valid := 0\<rparr>, inpq\<lparr>v := vs\<rparr>)
                       | (True, vs) \<Rightarrow>
                           (s\<lparr>overlap_valid := 1\<rparr>,
                            orient_ccw cm3 \<lparr>v = vs, npv = npv pq\<rparr>)))"

text \<open>\<^verbatim>\<open>init_image_scanner\<close> returns its status, the scanner and the contents of \<^verbatim>\<open>*ymin\<close>
  and \<^verbatim>\<open>*ymax\<close>.\<close>

definition init_image_scanner ::
  "vertex \<Rightarrow> vertex \<Rightarrow> vertex \<Rightarrow> vertex list \<Rightarrow> driz_param_t \<Rightarrow> scanner
     \<Rightarrow> int \<times> scanner \<times> int \<times> int" where
  "init_image_scanner cm1 cm2 cm3 junk par s =
     (let (s, inpq) = overlap_polygon cm1 cm2 cm3 junk par s;
          (n, s) = init_scanner inpq s par;
          ymin' = max 0 (int_of_double (min_y s + 0.5 + 2.0 * MAX_INV_ERR));
          ymax' = min (s_ymax s) (int_of_double (max_y s + 2.0 * MAX_INV_ERR))
      in (n, s, ymin', ymax'))"

text \<open>An example: the scanner of the triangle with the vertices (0, 0), (4, 0) and
  (2, 3.2), initialised with the clip bounds \<open>[0, 9]\<close> for x and \<open>[2, 9]\<close> for y on a scanner
  whose arrays are filled with an arbitrary edge.\<close>

definition blank_edge :: edge where
  "blank_edge = \<lparr>e_v1 = origin, e_v2 = origin, e_p = 0, e_m = 0, e_b = 0, e_c = 0\<rparr>"

definition blank_scanner :: scanner where
  "blank_scanner =
     \<lparr>left_edges = replicate 16 blank_edge, right_edges = replicate 16 blank_edge,
      left = None, right = None, nleft = 0, nright = 0, min_y = 0, max_y = 0,
      s_xmin = 0, s_xmax = 0, s_ymin = 0, s_ymax = 0, overlap_valid = 0\<rparr>"

definition clip_par :: driz_param_t where
  "clip_par =
     \<lparr>pixmap = grid_pixmap, xmin = 0, xmax = 9, ymin = 2, ymax = 9,
      output_ndim0 = 10, output_ndim1 = 10\<rparr>"

definition tall_triangle :: polygon where
  "tall_triangle = polygon_of [(0, 0), (4, 0), (2, 16 / 5)]"

definition triangle_scanner :: scanner where
  "triangle_scanner = snd (init_scanner tall_triangle blank_scanner clip_par)"

text \<open>The return codes of a series of row queries on one scanner, each query continuing
  with the scanner the query before it has left; the series stops where a cursor leaves
  its array.\<close>

fun scan_rows :: "scanner \<Rightarrow> int list \<Rightarrow> int list" where
  "scan_rows s [] = []"
| "scan_rows s (y # ys) =
     (case get_scanline_limits s y 0 0 of
        None \<Rightarrow> []
      | Some (code, s', x1, x2) \<Rightarrow> code # scan_rows s' ys)"

text \<open>The two bounds checks at the head of \<^verbatim>\<open>get_scanline_limits\<close> (lines 752 to 761).\<close>

definition row_rejected :: "scanner \<Rightarrow> int \<Rightarrow> bool" where
  "row_rejected s y \<longleftrightarrow>
     (s_ymax s \<ge> s_ymin s \<and> (y < 0 \<or> y > s_ymax s)) \<or>
     double_of_int y + 0.5 \<le> min_y s \<or> double_of_int y - 0.5 \<ge> max_y s + 1"

text \<open>The example scanner after the end of its scan.\<close>

definition ended_scanner :: scanner where
  "ended_scanner = triangle_scanner\<lparr>left := None, right := None\<rparr>"

section \<open>Normalisation and orientation\<close>

text \<open>Normalisation as the specification describes it: \<^verbatim>\<open>orient_ccw\<close> followed by
  \<^verbatim>\<open>simplify_polygon\<close>.  The signed area as the specification words it: the sum of the
  cross products of the consecutive pairs of vertices, the last vertex paired with the
  first.\<close>

definition normalize :: "vertex \<Rightarrow> polygon \<Rightarrow> polygon" where
  "normalize cm p = simplify_polygon (orient_ccw cm p)"

definition signed_area :: "polygon \<Rightarrow> double" where
  "signed_area p =
     (let vs = take (nat (npv p)) (v p)
      in foldr (\<lambda>(a, b) acc. area a b + acc) (zip vs (rotate1 vs)) 0)"

text \<open>Points with real coordinates, and the vertex with given finite coordinates.\<close>

fun fin_vertex :: "real \<times> real \<Rightarrow> vertex" where
  "fin_vertex (a, b) = \<lparr>vx = Fin a, vy = Fin b\<rparr>"


text \<open>Twice the signed area of the triangle \<open>a\<close>, \<open>b\<close>, \<open>c\<close>: positive when the three
  points make a left turn.\<close>

definition cross3 :: "real \<times> real \<Rightarrow> real \<times> real \<Rightarrow> real \<times> real \<Rightarrow> real" where
  "cross3 a b c = (fst b - fst a) * (snd c - snd a) - (snd b - snd a) * (fst c - fst a)"








definition cw_square :: polygon where
  "cw_square = polygon_of [(0, 0), (0, 4), (4, 4), (4, 0)]"

text \<open>The turn that the first two points make about the centre that \<^verbatim>\<open>orient_ccw\<close>
  computes when its accumulator starts at \<open>c0\<close>.\<close>

definition centre_turn :: "real \<times> real \<Rightarrow> (real \<times> real) list \<Rightarrow> real" where
  "centre_turn c0 ps =
     cross3 ((fst c0 + sum_list (map fst ps)) / real (length ps),
             (snd c0 + sum_list (map snd ps)) / real (length ps)) (ps ! 0) (ps ! 1)"

text \<open>A content of the accumulator other than zero, and a clockwise square whose first
  vertex is listed twice.\<close>

definition stale_cm :: vertex where
  "stale_cm = \<lparr>vx = - 100, vy = - 100\<rparr>"

definition doubled_square :: polygon where
  "doubled_square = polygon_of [(0, 0), (0, 0), (0, 4), (4, 4), (4, 0)]"

text \<open>An example for the overlap: an input image of 4 by 4 pixels, all valid, whose pixel
  \<open>(i, j)\<close> lies at \<open>(i + 1, j / 4 + 1 / 4)\<close> in the output frame, and an output image of 2
  rows and 6 columns.  The input image covers the part \<open>[0.5, 4.5] \<times> [0.125, 1.125]\<close> of
  the output frame, inside the output image.  The local arrays start filled with the
  origin.\<close>

definition squeeze_pixmap :: PyArrayObject where
  "squeeze_pixmap =
     \<lparr>ndim0 = 4, ndim1 = 4,
      cell = (\<lambda>j i. (Fin (of_int i + 1), Fin (of_int j / 4 + 1 / 4)))\<rparr>"

definition squeeze_par :: driz_param_t where
  "squeeze_par =
     \<lparr>pixmap = squeeze_pixmap, xmin = 0, xmax = 3, ymin = 0, ymax = 3,
      output_ndim0 = 2, output_ndim1 = 6\<rparr>"

definition junk_origin :: "vertex list" where
  "junk_origin = replicate 16 origin"

text \<open>The inverse mapping of a corner of that part: the width of the bracket after \<open>n\<close>
  iterations, the bounds of the bracket in one coordinate for a corner at the high (\<open>h\<close>)
  or the low end of the valid region, the bracket, and the corner in the output frame.\<close>

definition golden_width :: "nat \<Rightarrow> real" where
  "golden_width n = 7 / 2 * (6180339887498948482 / 10 ^ 19) ^ n"

definition corner_lo :: "bool \<Rightarrow> real \<Rightarrow> real" where
  "corner_lo h w = (if h then 7 / 2 - w else - 1 / 2)"

definition corner_hi :: "bool \<Rightarrow> real \<Rightarrow> real" where
  "corner_hi h w = (if h then 7 / 2 else - 1 / 2 + w)"

definition corner_bracket :: "bool \<Rightarrow> bool \<Rightarrow> nat \<Rightarrow> bracket" where
  "corner_bracket hx hy n =
     \<lparr>b_xmin = Fin (corner_lo hx (golden_width n)), b_xmax = Fin (corner_hi hx (golden_width n)),
      b_ymin = Fin (corner_lo hy (golden_width n)), b_ymax = Fin (corner_hi hy (golden_width n)),
      b_dx = Fin (golden_width n), b_dy = Fin (golden_width n), b_niter = int n\<rparr>"

definition corner_target :: "bool \<Rightarrow> bool \<Rightarrow> double \<times> double" where
  "corner_target hx hy = (Fin (if hx then 9 / 2 else 1 / 2), Fin (if hy then 9 / 8 else 1 / 8))"

text \<open>The corners of the valid region as the inverse mapping returns them: each moved
  inwards by half the width of the tenth bracket.\<close>

definition inverted_corners :: "(real \<times> real) list" where
  "inverted_corners =
     [(- 1 / 2 + golden_width 10 / 2, - 1 / 2 + golden_width 10 / 2),
      (7 / 2 - golden_width 10 / 2, - 1 / 2 + golden_width 10 / 2),
      (7 / 2 - golden_width 10 / 2, 7 / 2 - golden_width 10 / 2),
      (- 1 / 2 + golden_width 10 / 2, 7 / 2 - golden_width 10 / 2)]"


section \<open>Evaluating doubles\<close>

lemma numeral_double: "(numeral k :: double) = Fin (numeral k)"
proof (induction k)
  case One
  show ?case by (simp add: one_double_def)
next
  case (Bit0 k)
  have "(numeral (num.Bit0 k) :: double) = numeral k + numeral k"
    by (rule numeral_Bit0)
  also have "\<dots> = Fin (numeral k + numeral k)"
    by (simp add: Bit0)
  also have "\<dots> = Fin (numeral (num.Bit0 k))"
    by (simp only: numeral_Bit0)
  finally show ?case .
next
  case (Bit1 k)
  have "(numeral (num.Bit1 k) :: double) = numeral k + numeral k + 1"
    by (rule numeral_Bit1)
  also have "\<dots> = Fin (numeral k + numeral k + 1)"
    by (simp add: Bit1 one_double_def)
  also have "\<dots> = Fin (numeral (num.Bit1 k))"
    by (simp only: numeral_Bit1)
  finally show ?case .
qed

lemma minus_Fin: "Fin a - Fin b = Fin (a - b)"
  by (simp add: minus_double_def)

lemma power_Fin: "Fin a ^ n = Fin (a ^ n)"
  by (induction n) (simp_all add: one_double_def)

lemmas double_eval =
  numeral_double minus_Fin power_Fin zero_double_def one_double_def double_of_int_def
  deq_def npy_isnan_def trunc_real_def

lemma NaN_absorbing [simp]:
  "NaN + a = NaN" "a + NaN = NaN" "NaN * a = NaN" "a * NaN = NaN"
  "NaN - a = NaN" "a - NaN = NaN"
  by (cases a; simp add: minus_double_def)+

section \<open>Forward mapping\<close>

lemma map_point_new_integral:
  "map_point_new par (double_of_int i) (double_of_int j) = map_pixel_fwd (pixmap par) i j"
  if "INT_MIN < i" "i < 2 ^ 31" "INT_MIN < j" "j < 2 ^ 31"
  using that by (simp add: map_point_new_def double_eval INT_MIN_def)

lemma map_pixel_fwd_stored:
  "map_pixel_fwd pm i j =
     (if fst (cell pm j i) = NaN \<or> snd (cell pm j i) = NaN then 1 else 0, cell pm j i)"
  by (simp add: map_pixel_fwd_def npy_isnan_def split: prod.splits)

text \<open>
  C1.  At a point with integral coordinates inside the valid region the forward mapping
  has to return the pair stored at that grid node, through \<^verbatim>\<open>map_point\<close> as well as
  through \<^verbatim>\<open>map_point_new\<close>.  On the grid whose node (3, 2) stores (10, 20),
  \<^verbatim>\<open>map_point_new\<close> returns (10, 20), while \<^verbatim>\<open>map_point\<close> reports success and returns
  whatever its uninitialised locals \<^verbatim>\<open>xout\<close> and \<^verbatim>\<open>yout\<close> held: the stored pair, placed
  in the output array by \<^verbatim>\<open>map_pixel\<close>, is overwritten by the two final assignments.
\<close>

theorem map_point_integral_returns_locals:
  "get_pixmap (pixmap grid_par) 3 2 = (10, 20) \<and>
   map_point_new grid_par 3 2 = (0, 10, 20) \<and>
   map_point grid_par (3, 2) xyout (gx, gy) = (0, gx, gy)"
  by (simp add: map_point_def map_point_new_def map_pixel_def map_pixel_fwd_def
      get_pixmap_def grid_par_def grid_pixmap_def double_eval)

text \<open>The base cell of the interpolation, for an input coordinate within the range of
  \<^verbatim>\<open>int\<close>: the integer part of the coordinate, moved into the range from 0 to the number
  of columns (rows) minus 2; a coordinate at or below -1 gives 0.\<close>

lemma clamp_base_Fin:
  assumes "- (2 ^ 31) - 1 < a" "a < 2 ^ 31"
  shows "clamp_base n (Fin a) = (if a \<le> - 1 then 0 else min (n - 2) (max 0 \<lfloor>a\<rfloor>))"
proof -
  have i: "int_of_double (Fin a) = trunc_real a"
    using assms by simp
  consider "a \<le> - 1" | "- 1 < a" "a < 0" | "0 \<le> a"
    by linarith
  then show ?thesis
  proof cases
    case 1
    then have "\<lceil>a\<rceil> \<le> - 1"
      by (simp add: ceiling_le_iff)
    with 1 show ?thesis
      by (simp add: clamp_base_def i trunc_real_def Let_def del: int_of_double.simps)
  next
    case 2
    then have "\<lceil>a\<rceil> = 0" "\<lfloor>a\<rfloor> = - 1"
      by (simp_all add: ceiling_eq_iff floor_eq_iff)
    with 2 show ?thesis
      by (simp add: clamp_base_def i trunc_real_def Let_def del: int_of_double.simps)
  next
    case 3
    then have "0 \<le> \<lfloor>a\<rfloor>"
      by simp
    with 3 show ?thesis
      by (simp add: clamp_base_def i trunc_real_def Let_def del: int_of_double.simps)
  qed
qed

text \<open>
  C8.  For every input point with finite coordinates in the range of \<^verbatim>\<open>int\<close>,
  \<^verbatim>\<open>interpolate_point\<close> reads the four cells in the rows \<open>j0\<close>, \<open>j0 + 1\<close> and the columns
  \<open>i0\<close>, \<open>i0 + 1\<close> of the pixel map, where \<open>i0\<close> is the integer part of \<open>xin\<close> moved into
  the range from 0 to the number of columns minus 2 and \<open>j0\<close> likewise from \<open>yin\<close> and the
  number of rows.  With the offsets \<open>x = xin - i0\<close> and \<open>y = yin - j0\<close> it returns the
  bilinear interpolant \<open>f00 (1 - x) (1 - y) + f10 x (1 - y) + f01 (1 - x) y + f11 x y\<close> of
  the four cells, in each coordinate.  The status is 1 exactly when one of the four
  cells, or one of the two interpolated coordinates, is not-a-number, and 0 otherwise.
\<close>

theorem interpolate_point_status:
  assumes "- (2 ^ 31) - 1 < a" "a < 2 ^ 31" "- (2 ^ 31) - 1 < b" "b < 2 ^ 31"
  shows "interpolate_point par (Fin a) (Fin b) =
     (let pm = pixmap par;
          i0 = (if a \<le> - 1 then 0 else min (ndim1 pm - 2) (max 0 \<lfloor>a\<rfloor>));
          j0 = (if b \<le> - 1 then 0 else min (ndim0 pm - 2) (max 0 \<lfloor>b\<rfloor>));
          x = Fin (a - of_int i0);
          y = Fin (b - of_int j0);
          c00 = cell pm j0 i0;
          c10 = cell pm j0 (i0 + 1);
          c01 = cell pm (j0 + 1) i0;
          c11 = cell pm (j0 + 1) (i0 + 1);
          xout = fst c00 * (1 - x) * (1 - y) + fst c10 * x * (1 - y) + fst c01 * (1 - x) * y
                   + fst c11 * x * y;
          yout = snd c00 * (1 - x) * (1 - y) + snd c10 * x * (1 - y) + snd c01 * (1 - x) * y
                   + snd c11 * x * y
      in (if npy_isnan (fst c00) \<or> npy_isnan (snd c00) \<or>
             npy_isnan (fst c10) \<or> npy_isnan (snd c10) \<or>
             npy_isnan (fst c01) \<or> npy_isnan (snd c01) \<or>
             npy_isnan (fst c11) \<or> npy_isnan (snd c11) \<or>
             npy_isnan xout \<or> npy_isnan yout
          then 1 else 0, xout, yout))"
proof -
  define i0 where "i0 = (if a \<le> - 1 then 0 else min (ndim1 (pixmap par) - 2) (max 0 \<lfloor>a\<rfloor>))"
  define j0 where "j0 = (if b \<le> - 1 then 0 else min (ndim0 (pixmap par) - 2) (max 0 \<lfloor>b\<rfloor>))"
  have c: "clamp_base (ndim1 (pixmap par)) (Fin a) = i0" "clamp_base (ndim0 (pixmap par)) (Fin b) = j0"
    by (simp_all only: clamp_base_Fin [OF assms(1,2)] clamp_base_Fin [OF assms(3,4)] i0_def j0_def)
  have "interpolate_point par (Fin a) (Fin b) =
     (let pm = pixmap par;
          x = Fin (a - of_int i0);
          y = Fin (b - of_int j0);
          c00 = cell pm j0 i0;
          c10 = cell pm j0 (i0 + 1);
          c01 = cell pm (j0 + 1) i0;
          c11 = cell pm (j0 + 1) (i0 + 1);
          xout = fst c00 * (1 - x) * (1 - y) + fst c10 * x * (1 - y) + fst c01 * (1 - x) * y
                   + fst c11 * x * y;
          yout = snd c00 * (1 - x) * (1 - y) + snd c10 * x * (1 - y) + snd c01 * (1 - x) * y
                   + snd c11 * x * y
      in (if npy_isnan (fst c00) \<or> npy_isnan (snd c00) \<or>
             npy_isnan (fst c10) \<or> npy_isnan (snd c10) \<or>
             npy_isnan (fst c01) \<or> npy_isnan (snd c01) \<or>
             npy_isnan (fst c11) \<or> npy_isnan (snd c11) \<or>
             npy_isnan xout \<or> npy_isnan yout
          then 1 else 0, xout, yout))"
    by (auto simp add: interpolate_point_def Let_def c npy_isnan_def get_pixmap_def
        double_of_int_def minus_Fin split: prod.splits)
  then show ?thesis
    unfolding i0_def j0_def by (simp only: Let_def)
qed

theorem interpolate_point_status_witness:
  "- (2 ^ 31) - 1 < (5 / 2 :: real) \<and> (5 / 2 :: real) < 2 ^ 31 \<and>
   - (2 ^ 31) - 1 < (3 / 2 :: real) \<and> (3 / 2 :: real) < 2 ^ 31 \<and>
   interpolate_point grid_par (Fin (5 / 2)) (Fin (3 / 2)) = (0, Fin (17 / 4), Fin 6)"
proof -
  have f: "\<lfloor>5 / 2 :: real\<rfloor> = 2" "\<lfloor>3 / 2 :: real\<rfloor> = 1"
    by (simp_all add: floor_eq_iff)
  have h: "- (2 ^ 31) - 1 < (5 / 2 :: real)" "(5 / 2 :: real) < 2 ^ 31"
    "- (2 ^ 31) - 1 < (3 / 2 :: real)" "(3 / 2 :: real) < 2 ^ 31"
    by simp_all
  from interpolate_point_status [OF h, of grid_par] h show ?thesis
    by (simp add: f Let_def grid_par_def grid_pixmap_def double_eval)
qed

section \<open>Inverse mapping\<close>

lemma isfinite_iff: "isfinite a \<longleftrightarrow> (\<exists>r. a = Fin r)"
  by (cases a) simp_all

lemma not_less_finite: "isfinite a \<Longrightarrow> isfinite b \<Longrightarrow> \<not> a < b \<Longrightarrow> b \<le> a"
  by (auto simp add: isfinite_iff)

lemma le_not_less: "(a::double) \<le> b \<Longrightarrow> \<not> b < a"
  by (cases a; cases b) simp_all

lemma gr_Fin: "gr = Fin (6180339887498948482 / 10 ^ 19)"
  by (simp add: gr_def double_eval)

lemma MAX_INV_ERR_Fin: "MAX_INV_ERR = Fin (3 / 100)"
  by (simp add: MAX_INV_ERR_def double_eval)

lemma golden_shrink_niter:
  "b_niter (golden_shrink c x1 x2 y1 y2 d11 d12 d21 d22) = b_niter c"
  by (simp add: golden_shrink_def Let_def)

lemma golden_shrink_finite:
  assumes "bracket_finite c" "isfinite x1" "isfinite x2" "isfinite y1" "isfinite y2"
  shows "bracket_finite (golden_shrink c x1 x2 y1 y2 d11 d12 d21 d22)"
  using assms by (auto simp add: golden_shrink_def Let_def bracket_finite_def isfinite_iff minus_Fin)

lemma golden_body_niter:
  "golden_body par xyout b = Inr b' \<Longrightarrow> b_niter b' = b_niter b + 1"
  by (auto simp add: golden_body_def Let_def golden_shrink_niter split: option.splits)

lemma golden_body_niter_Inl:
  "golden_body par xyout b = Inl b' \<Longrightarrow> b_niter b' = b_niter b + 1"
  by (auto simp add: golden_body_def Let_def split: option.splits)

lemma golden_body_finite:
  assumes "golden_body par xyout b = Inr b'" "bracket_finite b"
  shows "bracket_finite b'"
proof -
  define c where "c = b\<lparr>b_niter := b_niter b + 1\<rparr>"
  have c: "bracket_finite c"
    using assms(2) by (simp add: c_def bracket_finite_def)
  have x: "isfinite (b_xmax c - gr * b_dx c)" "isfinite (b_xmin c + gr * b_dx c)"
    "isfinite (b_ymax c - gr * b_dy c)" "isfinite (b_ymin c + gr * b_dy c)"
    using c by (auto simp add: bracket_finite_def isfinite_iff gr_Fin minus_Fin)
  from assms(1) obtain d11 d12 d21 d22 where
    "b' = golden_shrink c (b_xmax c - gr * b_dx c) (b_xmin c + gr * b_dx c)
       (b_ymax c - gr * b_dy c) (b_ymin c + gr * b_dy c) d11 d12 d21 d22"
    by (auto simp add: golden_body_def Let_def c_def split: option.splits)
  with golden_shrink_finite [OF c x] show ?thesis
    by simp
qed

lemma golden_loop_Inr:
  "golden_loop par xyout b = Inr b' \<Longrightarrow> b_niter b \<le> nmax_iter \<Longrightarrow> bracket_finite b \<Longrightarrow>
     b_niter b' \<le> nmax_iter \<and>
     (b_niter b' = nmax_iter \<or> (b_dx b' \<le> MAX_INV_ERR \<and> b_dy b' \<le> MAX_INV_ERR))"
proof (induction par xyout b rule: golden_loop.induct)
  case (1 par xyout b)
  show ?case
  proof (cases "golden_cond b")
    case True
    with "1.prems"(1) obtain b1 where b1: "golden_body par xyout b = Inr b1"
      and l: "golden_loop par xyout b1 = Inr b'"
      by (simp add: golden_loop.simps [of par xyout b] split: sum.splits)
    have "b_niter b1 \<le> nmax_iter"
      using golden_body_niter [OF b1] True by (simp add: golden_cond_def)
    moreover have "bracket_finite b1"
      using golden_body_finite [OF b1 "1.prems"(3)] .
    ultimately show ?thesis
      using "1.IH" [OF True b1 l] by simp
  next
    case False
    with "1.prems"(1) have eq: "b' = b"
      by (simp add: golden_loop.simps [of par xyout b])
    from "1.prems"(3) have fin: "isfinite (b_dx b)" "isfinite (b_dy b)"
      by (simp_all add: bracket_finite_def)
    have tol: "isfinite MAX_INV_ERR"
      by (simp add: MAX_INV_ERR_Fin)
    from False "1.prems"(2) show ?thesis
      unfolding eq golden_cond_def
      using not_less_finite [OF tol fin(1)] not_less_finite [OF tol fin(2)] by auto
  qed
qed

lemma golden_loop_Inl:
  "golden_loop par xyout b = Inl b' \<Longrightarrow> b_niter b' \<le> nmax_iter"
proof (induction par xyout b rule: golden_loop.induct)
  case (1 par xyout b)
  from "1.prems" have c: "golden_cond b"
    by (simp add: golden_loop.simps [of par xyout b] split: if_splits)
  show ?case
  proof (cases "golden_body par xyout b")
    case (Inl b1)
    with c "1.prems" have "b' = b1"
      by (simp add: golden_loop.simps [of par xyout b])
    with golden_body_niter_Inl [OF Inl] c show ?thesis
      by (simp add: golden_cond_def)
  next
    case (Inr b1)
    with c "1.prems" have "golden_loop par xyout b1 = Inl b'"
      by (simp add: golden_loop.simps [of par xyout b])
    from "1.IH" [OF c Inr this] show ?thesis .
  qed
qed

lemma init_bracket_finite: "bracket_finite (init_bracket par)"
  by (simp add: init_bracket_def bracket_finite_def Let_def double_eval)

lemma init_bracket_niter: "b_niter (init_bracket par) = 0"
  by (simp add: init_bracket_def Let_def)

text \<open>After an execution of the loop body \<^verbatim>\<open>dx\<close> and \<^verbatim>\<open>dy\<close> are the widths of the
  bracketing rectangle.\<close>

lemma golden_shrink_widths:
  "b_dx (golden_shrink c x1 x2 y1 y2 d11 d12 d21 d22) =
     b_xmax (golden_shrink c x1 x2 y1 y2 d11 d12 d21 d22) -
     b_xmin (golden_shrink c x1 x2 y1 y2 d11 d12 d21 d22)"
  "b_dy (golden_shrink c x1 x2 y1 y2 d11 d12 d21 d22) =
     b_ymax (golden_shrink c x1 x2 y1 y2 d11 d12 d21 d22) -
     b_ymin (golden_shrink c x1 x2 y1 y2 d11 d12 d21 d22)"
  by (simp_all add: golden_shrink_def Let_def)

lemma golden_body_widths:
  assumes "golden_body par xyout b = Inr b'"
  shows "b_dx b' = b_xmax b' - b_xmin b'" "b_dy b' = b_ymax b' - b_ymin b'"
proof -
  from assms obtain c x1 x2 y1 y2 d11 d12 d21 d22 where
    "b' = golden_shrink c x1 x2 y1 y2 d11 d12 d21 d22"
    by (auto simp add: golden_body_def Let_def split: option.splits)
  then show "b_dx b' = b_xmax b' - b_xmin b'" "b_dy b' = b_ymax b' - b_ymin b'"
    by (simp_all only: golden_shrink_widths)
qed

lemma golden_loop_widths:
  "golden_loop par xyout b = Inr b' \<Longrightarrow>
     b' = b \<or>
     (b_niter b < b_niter b' \<and> b_dx b' = b_xmax b' - b_xmin b' \<and> b_dy b' = b_ymax b' - b_ymin b')"
proof (induction par xyout b rule: golden_loop.induct)
  case (1 par xyout b)
  show ?case
  proof (cases "golden_cond b")
    case True
    with "1.prems" obtain b1 where b1: "golden_body par xyout b = Inr b1"
      and l: "golden_loop par xyout b1 = Inr b'"
      by (simp add: golden_loop.simps [of par xyout b] split: sum.splits)
    from "1.IH" [OF True b1 l] golden_body_niter [OF b1] golden_body_widths [OF b1]
    show ?thesis
      by auto
  next
    case False
    with "1.prems" show ?thesis
      by (simp add: golden_loop.simps [of par xyout b])
  qed
qed

lemma interp_flat: "interpolate_point flat_par (Fin a) (Fin b) = (0, Fin 0, Fin 0)"
  by (simp add: interpolate_point_def clamp_base_def Let_def flat_par_def flat_pixmap_def get_pixmap_def double_eval)

lemma eval_flat: "eval_inversion flat_par (Fin a) (Fin b) (Fin 0, Fin 0) = Some (Fin 0)"
  by (simp add: eval_inversion_def interp_flat double_eval)

lemma body_flat: "golden_body flat_par (Fin 0, Fin 0)
     \<lparr>b_xmin = Fin x0, b_xmax = Fin x1, b_ymin = Fin y0, b_ymax = Fin y1,
      b_dx = Fin dx, b_dy = Fin dy, b_niter = n\<rparr> =
   Inr \<lparr>b_xmin = Fin (x1 - 6180339887498948482 / 10 ^ 19 * dx), b_xmax = Fin x1,
        b_ymin = Fin (y1 - 6180339887498948482 / 10 ^ 19 * dy), b_ymax = Fin y1,
        b_dx = Fin (6180339887498948482 / 10 ^ 19 * dx),
        b_dy = Fin (6180339887498948482 / 10 ^ 19 * dy), b_niter = n + 1\<rparr>"
  by (simp add: golden_body_def golden_shrink_def eval_flat gr_Fin minus_Fin Let_def)

lemma init_flat: "init_bracket flat_par = \<lparr>b_xmin = Fin (-1/2), b_xmax = Fin (1/2), b_ymin = Fin (-1/2), b_ymax = Fin (1/2),
          b_dx = Fin (1/2), b_dy = Fin (1/2), b_niter = 0\<rparr>"
  by (simp add: init_bracket_def flat_par_def double_eval Let_def)

text \<open>
  C2 (as amended).  The loop of \<^verbatim>\<open>invert_pixmap\<close> stops as soon as \<^verbatim>\<open>dx\<close> and \<^verbatim>\<open>dy\<close> are
  both at or below the tolerance 0.03, and it performs at most 50 iterations.  Before the
  first iteration \<^verbatim>\<open>dx\<close> and \<^verbatim>\<open>dy\<close> hold \<open>xmax\<close> and \<open>ymax\<close>; every execution of the loop
  body that does not fail increments the counter and leaves in \<^verbatim>\<open>dx\<close> and \<^verbatim>\<open>dy\<close> the full
  widths \<open>xmax - xmin\<close> and \<open>ymax - ymin\<close> of the new bracketing rectangle, not its
  half-widths.  When the loop ends, either the counter is 50 or \<^verbatim>\<open>dx\<close> and \<^verbatim>\<open>dy\<close> are within
  the tolerance, and they are the widths of the final rectangle unless no iteration was
  made; the function then writes the centre of the final rectangle and returns 1 if the
  counter is 50, and 0 otherwise.  When an evaluation fails inside the loop the function
  returns 1 and leaves the output point as it was.
\<close>

theorem invert_pixmap_terminates:
  "b_dx (init_bracket par) = b_xmax (init_bracket par) \<and>
   b_dy (init_bracket par) = b_ymax (init_bracket par) \<and>
   (golden_body par xyout b = Inr b1 \<longrightarrow>
      b_dx b1 = b_xmax b1 - b_xmin b1 \<and> b_dy b1 = b_ymax b1 - b_ymin b1 \<and>
      b_niter b1 = b_niter b + 1) \<and>
   (b_dx b \<le> MAX_INV_ERR \<and> b_dy b \<le> MAX_INV_ERR \<longrightarrow> golden_loop par xyout b = Inr b) \<and>
   (case golden_loop par xyout (init_bracket par) of
      Inl b' \<Rightarrow> b_niter b' \<le> nmax_iter \<and> invert_pixmap par xyout xyin = (1, xyin)
    | Inr b' \<Rightarrow>
        b_niter b' \<le> nmax_iter \<and>
        (b_niter b' = nmax_iter \<or> (b_dx b' \<le> MAX_INV_ERR \<and> b_dy b' \<le> MAX_INV_ERR)) \<and>
        (if b_niter b' = 0 then b' = init_bracket par
         else b_dx b' = b_xmax b' - b_xmin b' \<and> b_dy b' = b_ymax b' - b_ymin b') \<and>
        invert_pixmap par xyout xyin =
          (if b_niter b' = nmax_iter then 1 else 0,
           0.5 * (b_xmin b' + b_xmax b'), 0.5 * (b_ymin b' + b_ymax b')))"
proof (intro conjI impI)
  show "b_dx (init_bracket par) = b_xmax (init_bracket par)"
    "b_dy (init_bracket par) = b_ymax (init_bracket par)"
    by (simp_all add: init_bracket_def Let_def)
next
  assume b1: "golden_body par xyout b = Inr b1"
  show "b_dx b1 = b_xmax b1 - b_xmin b1" "b_dy b1 = b_ymax b1 - b_ymin b1"
    "b_niter b1 = b_niter b + 1"
    by (rule golden_body_widths [OF b1] golden_body_niter [OF b1])+
next
  assume "b_dx b \<le> MAX_INV_ERR \<and> b_dy b \<le> MAX_INV_ERR"
  then have "\<not> golden_cond b"
    by (auto simp add: golden_cond_def dest: le_not_less)
  then show "golden_loop par xyout b = Inr b"
    by (simp add: golden_loop.simps [of par xyout b])
next
  show "case golden_loop par xyout (init_bracket par) of
      Inl b' \<Rightarrow> b_niter b' \<le> nmax_iter \<and> invert_pixmap par xyout xyin = (1, xyin)
    | Inr b' \<Rightarrow>
        b_niter b' \<le> nmax_iter \<and>
        (b_niter b' = nmax_iter \<or> (b_dx b' \<le> MAX_INV_ERR \<and> b_dy b' \<le> MAX_INV_ERR)) \<and>
        (if b_niter b' = 0 then b' = init_bracket par
         else b_dx b' = b_xmax b' - b_xmin b' \<and> b_dy b' = b_ymax b' - b_ymin b') \<and>
        invert_pixmap par xyout xyin =
          (if b_niter b' = nmax_iter then 1 else 0,
           0.5 * (b_xmin b' + b_xmax b'), 0.5 * (b_ymin b' + b_ymax b'))"
  proof (cases "golden_loop par xyout (init_bracket par)")
    case (Inl b')
    with golden_loop_Inl [OF Inl] show ?thesis
      by (simp add: invert_pixmap_def)
  next
    case (Inr b')
    have "b_niter (init_bracket par) \<le> nmax_iter"
      by (simp add: init_bracket_niter nmax_iter_def)
    from golden_loop_Inr [OF Inr this init_bracket_finite] golden_loop_widths [OF Inr] Inr
    show ?thesis
      by (auto simp add: invert_pixmap_def init_bracket_niter)
  qed
qed

theorem invert_pixmap_terminates_witness:
  "b_dx narrow_bracket \<le> MAX_INV_ERR \<and> b_dy narrow_bracket \<le> MAX_INV_ERR \<and>
   golden_loop flat_par (0, 0) narrow_bracket = Inr narrow_bracket \<and>
   (\<exists>b1. golden_body flat_par (0, 0) (init_bracket flat_par) = Inr b1 \<and>
      b_dx b1 = b_xmax b1 - b_xmin b1 \<and> b_dy b1 = b_ymax b1 - b_ymin b1 \<and> b_niter b1 = 1)"
proof -
  have h: "b_dx narrow_bracket \<le> MAX_INV_ERR \<and> b_dy narrow_bracket \<le> MAX_INV_ERR"
    by (simp add: narrow_bracket_def MAX_INV_ERR_def double_eval)
  obtain b1 where b1: "golden_body flat_par (0, 0) (init_bracket flat_par) = Inr b1"
    by (simp add: init_flat body_flat zero_double_def)
  from invert_pixmap_terminates [where par = flat_par and xyout = "(0, 0)" and b = narrow_bracket]
    invert_pixmap_terminates [where par = flat_par and xyout = "(0, 0)"
      and b = "init_bracket flat_par" and ?b1.0 = b1] h b1
  show ?thesis
    by (simp add: init_bracket_niter)
qed

text \<open>
  C2 (as stated) fails: the loop does not stop as soon as the half-widths of the rectangle
  are within the tolerance.  On the constant pixel map, after 5 iterations both
  half-widths are below 0.03 (the widths are about 0.045), the loop condition still
  holds, and the loop runs a sixth iteration.
\<close>

theorem half_width_counterexample:
  "(case golden_steps flat_par (0, 0) 5 (init_bracket flat_par) of
      None \<Rightarrow> False
    | Some b \<Rightarrow>
        (b_xmax b - b_xmin b) / 2 \<le> MAX_INV_ERR \<and> (b_ymax b - b_ymin b) / 2 \<le> MAX_INV_ERR \<and>
        golden_cond b) \<and>
   (case golden_loop flat_par (0, 0) (init_bracket flat_par) of
      Inl b \<Rightarrow> False
    | Inr b \<Rightarrow> b_niter b = 6)"
  by (simp add: init_flat body_flat eval_nat_numeral golden_cond_def nmax_iter_def
      MAX_INV_ERR_Fin zero_double_def minus_Fin numeral_double golden_loop.simps)

section \<open>Polygons\<close>

lemma APPROX_ZERO_Fin: "APPROX_ZERO = Fin (1000 / 2 ^ 1022)"
  by (simp add: APPROX_ZERO_def DBL_MIN_def numeral_double)

lemma mod_c_nonneg: "0 \<le> a \<Longrightarrow> 0 < b \<Longrightarrow> mod_c a b = a mod b"
proof -
  assume a: "0 \<le> a" and b: "0 < b"
  have "(a + b) div b = a div b + 1"
    using b by simp
  moreover have "a = b * (a div b) + a mod b"
    by simp
  ultimately have "a + b - b * ((a + b) div b) = a mod b"
    by (simp add: algebra_simps)
  with a b show ?thesis
    by (simp add: mod_c_def c_rem_def sgn_if)
qed


lemma append_vertex_wf:
  assumes "wf_polygon p" "append_vertex p w = (status, p')"
  shows "wf_polygon p'"
  using assms by (auto simp add: append_vertex_def wf_polygon_def split: if_splits)

lemma simplify_loop_length:
  "length (simplify_loop p k pv' pv pvnxt pqhull) \<le> length pqhull + nat (npv p - k)"
proof (induction p k pv' pv pvnxt pqhull rule: simplify_loop.induct)
  case (1 p k pv' pv pvnxt pqhull)
  show ?case
  proof (cases "k < npv p")
    case True
    then show ?thesis
      using "1.IH" [OF True refl refl refl refl refl refl]
      by (subst simplify_loop.simps) (auto simp add: Let_def split: if_splits)
  next
    case False
    then show ?thesis
      by (subst simplify_loop.simps) simp
  qed
qed

lemma simplify_polygon_wf:
  assumes "wf_polygon p"
  shows "wf_polygon (simplify_polygon p)"
proof (cases "npv p < 3")
  case True
  with assms show ?thesis
    by (simp add: simplify_polygon_def)
next
  case False
  define pqhull where "pqhull = simplify_loop p 0 (npv p - 1) 0 1 []"
  have "length pqhull \<le> nat (npv p)"
    using simplify_loop_length [of p 0 "npv p - 1" 0 1 "[]"] by (simp add: pqhull_def)
  with assms False show ?thesis
    by (auto simp add: simplify_polygon_def wf_polygon_def Let_def pqhull_def [symmetric])
qed

lemma fold_swap_length:
  "length (fold (\<lambda>k vs. swap_vertices vs (int k) (n - 1 - int k)) ks vs) = length vs"
  by (induction ks arbitrary: vs) (simp_all add: swap_vertices_def Let_def)

lemma orient_ccw_wf:
  assumes "wf_polygon p"
  shows "wf_polygon (orient_ccw cm p)"
  using assms by (simp add: orient_ccw_def wf_polygon_def Let_def fold_swap_length)

lemma orient_ccw_npv: "npv (orient_ccw cm p) = npv p"
  by (simp add: orient_ccw_def Let_def)

section \<open>Intersection of convex polygons\<close>

lemma step_wf_simps [simp]:
  "step_wf (Break s) = wf_polygon (t_pq s)" "step_wf (Continue s) = wf_polygon (t_pq s)"
  by (simp_all add: step_wf_def)

lemma step_wf_case:
  assumes "step_wf r" "\<And>s. wf_polygon (t_pq s) \<Longrightarrow> step_wf (f s)"
  shows "step_wf (case r of Break s \<Rightarrow> Break s | Continue s \<Rightarrow> f s)"
  using assms by (cases r) simp_all

lemma emit_step_wf:
  assumes "wf_polygon (t_pq st)"
  shows "step_wf (emit st w)"
proof (cases "append_vertex (t_pq st) w")
  case (Pair status pq)
  with append_vertex_wf [OF assms Pair] show ?thesis
    by (simp add: emit_def)
qed

lemma record_intersection_wf:
  assumes "wf_polygon (t_pq st)"
  shows "step_wf (record_intersection st k pv' pv t u d a b)"
proof -
  have e: "step_wf (emit (st\<lparr>t_first_intersect := vi, t_first_k := k\<rparr>) vi)" for vi
    by (rule emit_step_wf) (simp add: assms)
  have e': "step_wf (emit st vi)" for vi
    by (rule emit_step_wf) (rule assms)
  have r: "step_wf (if t_first_k st < 0 then
                    emit (st\<lparr>t_first_intersect := vi, t_first_k := k\<rparr>) vi
                  else if equal_vertices (t_first_intersect st) vi VERTEX_ATOL then
                    (if k > t_first_k st + 1 then Break st else Continue (st\<lparr>t_first_k := k\<rparr>))
                  else emit st vi)" for vi
    using e [of vi] e' [of vi] assms by simp
  show ?thesis
    unfolding record_intersection_def Let_def
    by (simp add: assms step_wf_case [OF r])
qed

lemma advance_wf:
  assumes "wf_polygon (t_pq st)"
  shows "step_wf (advance p q st pv qv d sa a b)"
proof -
  have e: "step_wf (if c then emit st w else Continue st)" for w c
    using emit_step_wf [OF assms, of w] assms by simp
  show ?thesis
    unfolding advance_def
    by (simp add: assms advance_p_def advance_q_def step_wf_case [OF e])
qed

lemma trace_body_wf:
  assumes "wf_polygon (t_pq st)"
  shows "step_wf (trace_body p q k st)"
  unfolding trace_body_def Let_def
  by (simp add: step_wf_case [OF record_intersection_wf [OF assms]] advance_wf split: prod.splits)

lemma trace_loop_wf:
  "wf_polygon (t_pq st) \<Longrightarrow> wf_polygon (t_pq (snd (trace_loop p q k st)))"
proof (induction p q k st rule: trace_loop.induct)
  case (1 p q k st)
  show ?case
  proof (cases "k \<le> 2 * (npv p + npv q)")
    case True
    show ?thesis
    proof (cases "trace_body p q k st")
      case (Break s)
      with trace_body_wf [OF "1.prems", of p q k] True show ?thesis
        by (simp add: trace_loop.simps [of p q k st])
    next
      case (Continue s)
      with trace_body_wf [OF "1.prems", of p q k] have "wf_polygon (t_pq s)"
        by simp
      from "1.IH" [OF True Continue this] True Continue show ?thesis
        by (auto simp add: trace_loop.simps [of p q k st] split: prod.splits)
    qed
  next
    case False
    with "1.prems" show ?thesis
      by (simp add: trace_loop.simps [of p q k st])
  qed
qed

lemma trace_loop_count:
  "fst (trace_loop p q k st) \<le> nat (2 * (npv p + npv q) + 1 - k)"
proof (induction p q k st rule: trace_loop.induct)
  case (1 p q k st)
  show ?case
  proof (cases "k \<le> 2 * (npv p + npv q)")
    case True
    show ?thesis
    proof (cases "trace_body p q k st")
      case (Break s)
      with True show ?thesis
        by (simp add: trace_loop.simps [of p q k st])
    next
      case (Continue s)
      from "1.IH" [OF True Continue] True Continue show ?thesis
        by (auto simp add: trace_loop.simps [of p q k st] split: prod.splits)
    qed
  next
    case False
    then show ?thesis
      by (simp add: trace_loop.simps [of p q k st])
  qed
qed

lemma polygon_of_eval:
  "v (polygon_of xs) = map (\<lambda>(a, b). \<lparr>vx = Fin a, vy = Fin b\<rparr>) xs @ replicate (16 - length xs) \<lparr>vx = Fin 0, vy = Fin 0\<rparr>"
  "npv (polygon_of xs) = int (length xs)"
  by (simp_all add: polygon_of_def IMAGE_OUTLINE_NPTS_def zero_double_def)

lemma wf_polygon_of: "length xs \<le> 16 \<Longrightarrow> wf_polygon (polygon_of xs)"
  by (simp add: wf_polygon_def polygon_of_eval IMAGE_OUTLINE_NPTS_def)

lemma triangle_a_eval:
  "v triangle_a = map (\<lambda>(a, b). \<lparr>vx = Fin a, vy = Fin b\<rparr>)
     [(0, 0), (1, 0), (0, 1), (0, 0), (0, 0), (0, 0), (0, 0), (0, 0),
      (0, 0), (0, 0), (0, 0), (0, 0), (0, 0), (0, 0), (0, 0), (0, 0)]"
  "npv triangle_a = 3"
  by (simp_all add: triangle_a_def polygon_of_eval eval_nat_numeral)

lemma triangle_b_eval:
  "v triangle_b = map (\<lambda>(a, b). \<lparr>vx = Fin a, vy = Fin b\<rparr>)
     [(5, 5), (6, 5), (5, 6), (0, 0), (0, 0), (0, 0), (0, 0), (0, 0),
      (0, 0), (0, 0), (0, 0), (0, 0), (0, 0), (0, 0), (0, 0), (0, 0)]"
  "npv triangle_b = 3"
  by (simp_all add: triangle_b_def polygon_of_eval eval_nat_numeral)

lemma square_b_eval:
  "v square_b = map (\<lambda>(a, b). \<lparr>vx = Fin a, vy = Fin b\<rparr>)
     [(5, 5), (6, 5), (6, 6), (5, 6), (0, 0), (0, 0), (0, 0), (0, 0),
      (0, 0), (0, 0), (0, 0), (0, 0), (0, 0), (0, 0), (0, 0), (0, 0)]"
  "npv square_b = 4"
  by (simp_all add: square_b_def polygon_of_eval eval_nat_numeral)

lemmas trace_eval =
  trace_body_def record_intersection_def advance_def advance_p_def advance_q_def emit_def
  append_vertex_def is_point_strictly_in_hp_def area_def equal_vertices_def
  APPROX_ZERO_Fin VERTEX_ATOL_def Let_def minus_Fin zero_double_def mod_c_nonneg init_trace_def

lemma upt_small: "[0..<3] = [0, 1, 2]" "[0..<4] = [0, 1, 2, 3]"
  by (simp_all add: upt_rec)

lemma orient_triangle_a: "orient_ccw origin triangle_a = triangle_a"
  by (simp add: orient_ccw_def origin_def triangle_a_eval upt_small area_def Let_def double_eval)

lemma orient_triangle_b: "orient_ccw origin triangle_b = triangle_b"
  by (simp add: orient_ccw_def origin_def triangle_b_eval upt_small area_def Let_def double_eval)

lemma orient_square_b: "orient_ccw origin square_b = square_b"
  by (simp add: orient_ccw_def origin_def square_b_eval upt_small area_def Let_def double_eval)

lemma not_contained_ab:
  "\<not> is_poly_contained triangle_a triangle_b" "\<not> is_poly_contained triangle_b triangle_a"
  "\<not> is_poly_contained triangle_a square_b" "\<not> is_poly_contained square_b triangle_a"
  by (simp_all add: is_poly_contained_def triangle_a_eval triangle_b_eval square_b_eval upt_small is_point_in_hp_def
      area_def APPROX_ZERO_Fin minus_Fin)

text \<open>
  C3 (as amended).  For all polygons \<open>p\<close> and \<open>q\<close> and every state at its start, the
  edge-tracing loop of \<^verbatim>\<open>intersect_convex_polygons\<close> executes its body at most
  \<open>2 * (|p| + |q|) + 1\<close> times: the loop counter runs from 0 to \<open>2 * (|p| + |q|)\<close>
  inclusive.  The loop function is total, so the loop always terminates.
\<close>

theorem trace_loop_iterations:
  "fst (trace_loop p q 0 st) \<le> nat (2 * (npv p + npv q) + 1)"
  using trace_loop_count [of p q 0 st] by simp

text \<open>
  C3 (as stated) fails: for two disjoint triangles, which are convex, counter-clockwise
  and not contained in one another, the loop body is executed 13 times, one more than
  \<open>2 * (3 + 3)\<close>.
\<close>

theorem disjoint_triangles_counterexample:
  "npv triangle_a = 3 \<and> npv triangle_b = 3 \<and>
   orient_ccw origin triangle_a = triangle_a \<and> orient_ccw origin triangle_b = triangle_b \<and>
   \<not> is_poly_contained triangle_a triangle_b \<and> \<not> is_poly_contained triangle_b triangle_a \<and>
   fst (trace_loop triangle_a triangle_b 0
         (init_trace triangle_a triangle_b (polygon_of []))) = 13"
  by (simp add: orient_triangle_a orient_triangle_b not_contained_ab trace_loop.simps
      trace_eval triangle_a_eval triangle_b_eval)

text \<open>
  C10.  Every advance step has to reduce the edge cursor of a polygon modulo the vertex
  count of that polygon.  The last advance step of \<open>p\<close> (line 607) reduces it modulo the
  vertex count of \<open>q\<close>.  For a triangle \<open>p\<close> and a disjoint square \<open>q\<close> the cursor of \<open>p\<close>
  is at index 3 after four iterations, past the three vertices of the triangle; the
  fifth iteration reads that slot as a vertex.
\<close>

theorem cursor_leaves_triangle:
  "npv triangle_a = 3 \<and> npv square_b = 4 \<and>
   orient_ccw origin triangle_a = triangle_a \<and> orient_ccw origin square_b = square_b \<and>
   \<not> is_poly_contained triangle_a square_b \<and> \<not> is_poly_contained square_b triangle_a \<and>
   (case trace_steps triangle_a square_b 4 0 (init_trace triangle_a square_b (polygon_of [])) of
      Break st \<Rightarrow> False
    | Continue st \<Rightarrow> t_ip st = 3 \<and> t_pv st = 3)"
  by (simp add: orient_triangle_a orient_square_b not_contained_ab eval_nat_numeral
      trace_eval triangle_a_eval square_b_eval)

lemma intersect_convex_polygons_wf:
  assumes "wf_polygon p" "wf_polygon q" "wf_polygon pq"
  shows "wf_polygon (snd (snd (snd (intersect_convex_polygons cmp cmq p q pq))))"
proof -
  have p': "wf_polygon (orient_ccw cmp p)" and q': "wf_polygon (orient_ccw cmq q)"
    using assms by (simp_all add: orient_ccw_wf)
  have "wf_polygon (t_pq (init_trace p' q' pq))" for p' q'
    using assms(3) by (simp add: init_trace_def wf_polygon_def IMAGE_OUTLINE_NPTS_def)
  then have "wf_polygon (simplify_polygon (t_pq (snd (trace_loop p' q' 0 (init_trace p' q' pq)))))"
    for p' q'
    by (intro simplify_polygon_wf trace_loop_wf)
  with assms p' q' show ?thesis
    by (simp add: intersect_convex_polygons_def Let_def simplify_polygon_wf)
qed

text \<open>
  C9 (as amended).  A polygon with at most 16 vertices in an array of 16 slots stays so under
  \<^verbatim>\<open>append_vertex\<close>: at capacity the polygon is returned unchanged, with status 1 unless
  the vertex equals the last vertex within the tolerance (then nothing has to be stored
  and the status is 0); a vertex equal to the current last vertex within the tolerance is
  never appended.  Hence the polygon that \<^verbatim>\<open>intersect_convex_polygons\<close> leaves in \<open>pq\<close>
  has at most 16 vertices, whatever the input polygons \<open>p\<close> and \<open>q\<close> are.
\<close>

theorem polygon_capacity:
  assumes "wf_polygon a" "wf_polygon p" "wf_polygon q" "wf_polygon pq"
  shows "wf_polygon (snd (append_vertex a w)) \<and>
    npv (snd (append_vertex a w)) \<le> 2 * 8 \<and>
    (2 * IMAGE_OUTLINE_NPTS \<le> npv a \<longrightarrow>
       append_vertex a w =
         (if equal_vertices (v a ! nat (npv a - 1)) w VERTEX_ATOL then 0 else 1, a)) \<and>
    (0 < npv a \<and> equal_vertices (v a ! nat (npv a - 1)) w VERTEX_ATOL \<longrightarrow>
       append_vertex a w = (0, a)) \<and>
    wf_polygon (snd (snd (snd (intersect_convex_polygons cmp cmq p q pq)))) \<and>
    npv (snd (snd (snd (intersect_convex_polygons cmp cmq p q pq)))) \<le> 2 * 8"
proof -
  have wf: "wf_polygon (snd (append_vertex a w))"
    using append_vertex_wf [OF assms(1), of w] by (cases "append_vertex a w") simp
  have cap: "npv r \<le> 2 * 8" if "wf_polygon r" for r
    using that by (simp add: wf_polygon_def IMAGE_OUTLINE_NPTS_def)
  have full: "append_vertex a w =
      (if equal_vertices (v a ! nat (npv a - 1)) w VERTEX_ATOL then 0 else 1, a)"
    if "2 * IMAGE_OUTLINE_NPTS \<le> npv a"
    using that by (simp add: append_vertex_def IMAGE_OUTLINE_NPTS_def)
  have dup: "append_vertex a w = (0, a)"
    if "0 < npv a \<and> equal_vertices (v a ! nat (npv a - 1)) w VERTEX_ATOL"
    using that by (simp add: append_vertex_def)
  note i = intersect_convex_polygons_wf [OF assms(2-4), of cmp cmq]
  from wf cap [OF wf] full dup i cap [OF i] show ?thesis
    by blast
qed

lemma full_polygon_eval:
  "v full_polygon = map (\<lambda>(a, b). \<lparr>vx = Fin a, vy = Fin b\<rparr>)
     [(0, 0), (1, 1), (2, 4), (3, 9), (4, 16), (5, 25), (6, 36), (7, 49),
       (8, 64), (9, 81), (10, 100), (11, 121), (12, 144), (13, 169), (14, 196), (15, 225)]"
  "npv full_polygon = 16"
  by (simp_all add: full_polygon_def polygon_of_eval)

theorem polygon_capacity_witness:
  "wf_polygon full_polygon \<and> wf_polygon triangle_a \<and> wf_polygon square_b \<and>
   wf_polygon (polygon_of []) \<and> 2 * IMAGE_OUTLINE_NPTS \<le> npv full_polygon \<and>
   append_vertex full_polygon far_vertex = (1, full_polygon) \<and>
   0 < npv full_polygon \<and>
   equal_vertices (v full_polygon ! nat (npv full_polygon - 1)) \<lparr>vx = 15, vy = 225\<rparr> VERTEX_ATOL \<and>
   append_vertex full_polygon \<lparr>vx = 15, vy = 225\<rparr> = (0, full_polygon) \<and>
   npv (snd (snd (snd (intersect_convex_polygons origin origin triangle_a square_b
     (polygon_of []))))) \<le> 16"
proof -
  have w: "wf_polygon full_polygon" "wf_polygon triangle_a" "wf_polygon square_b"
    "wf_polygon (polygon_of [])"
    by (simp_all add: full_polygon_def triangle_a_def square_b_def wf_polygon_of)
  have f: "2 * IMAGE_OUTLINE_NPTS \<le> npv full_polygon" "0 < npv full_polygon"
    by (simp_all add: full_polygon_eval IMAGE_OUTLINE_NPTS_def)
  have e: "equal_vertices (v full_polygon ! nat (npv full_polygon - 1)) \<lparr>vx = 15, vy = 225\<rparr> VERTEX_ATOL"
    "\<not> equal_vertices (v full_polygon ! nat (npv full_polygon - 1)) far_vertex VERTEX_ATOL"
    by (simp_all add: full_polygon_eval equal_vertices_def VERTEX_ATOL_def far_vertex_def double_eval)
  from polygon_capacity [OF w, of far_vertex origin origin]
    polygon_capacity [OF w, of "\<lparr>vx = 15, vy = 225\<rparr>" origin origin] w f e
  show ?thesis
    by simp
qed

text \<open>
  C9 (as stated) fails in one point: \<^verbatim>\<open>append_vertex\<close> does not return 1 for every
  polygon at capacity.  The test for a vertex equal to the last vertex comes first, so
  for the polygon with 16 vertices that ends with (15, 225) the call with the vertex
  (15, 225) returns 0; the polygon is left as it was.
\<close>

theorem append_duplicate_at_capacity:
  "npv full_polygon = 2 * IMAGE_OUTLINE_NPTS \<and>
   append_vertex full_polygon \<lparr>vx = 15, vy = 225\<rparr> = (0, full_polygon)"
  by (simp add: append_vertex_def full_polygon_eval IMAGE_OUTLINE_NPTS_def equal_vertices_def
      VERTEX_ATOL_def double_eval)

section \<open>The scanline scanner\<close>

lemma scan_interval_code:
  "fst (scan_interval s xlb xrb xlt xrt) = 0 \<or> fst (scan_interval s xlb xrb xlt xrt) = 3"
  by (simp add: scan_interval_def Let_def)

lemma get_scanline_limits_rejected:
  "row_rejected s y \<Longrightarrow> get_scanline_limits s y x1 x2 = Some (2, s, x1, x2)"
  by (auto simp add: get_scanline_limits_def row_rejected_def Let_def)

lemma get_scanline_limits_scan_row:
  "\<not> row_rejected s y \<Longrightarrow>
   get_scanline_limits s y x1 x2 =
     scan_row s y (double_of_int y - 0.5) (double_of_int y + 0.5) x1 x2"
  by (auto simp add: get_scanline_limits_def row_rejected_def Let_def)

lemma scan_row_null:
  assumes "left s = None \<or> right s = None"
  shows "scan_row s y pyb pyt x1 x2 = Some (1, s, x1, x2)"
  using assms by (auto simp add: scan_row_def Let_def split: option.splits)

lemma get_scanline_limits_null:
  assumes "\<not> row_rejected s y" "left s = None \<or> right s = None"
  shows "get_scanline_limits s y x1 x2 = Some (1, s, x1, x2)"
  using assms by (simp add: get_scanline_limits_scan_row scan_row_null)

text \<open>What a query with both cursors set can return after the bounds checks.\<close>

lemma scan_row_cases:
  assumes "left s = Some l" "right s = Some r"
  shows "scan_row s y pyb pyt x1 x2 = None \<or>
    scan_row s y pyb pyt x1 x2 = Some (1, s\<lparr>left := None, right := None\<rparr>, x1, x2) \<or>
    (\<exists>code s' a b. scan_row s y pyb pyt x1 x2 = Some (code, s', a, b) \<and>
       (code = 0 \<or> code = 3) \<and> left s' \<noteq> None \<and> right s' \<noteq> None)"
proof (cases "skip_edges (\<lambda>e. pyb > vy (e_v2 e)) (left_edges s) (nleft s - 1) l")
  case Outside
  then show ?thesis
    using assms by (simp add: scan_row_def Let_def)
next
  case Ended
  then show ?thesis
    using assms by (simp add: scan_row_def Let_def)
next
  case l1: (At l1)
  show ?thesis
  proof (cases "skip_edges (\<lambda>e. pyb > vy (e_v2 e)) (right_edges s) (nright s - 1) r")
    case Outside
    then show ?thesis
      using assms l1 by (simp add: scan_row_def Let_def)
  next
    case Ended
    then show ?thesis
      using assms l1 by (simp add: scan_row_def Let_def)
  next
    case r1: (At r1)
    show ?thesis
    proof (cases "skip_edges (\<lambda>e. pyt > vy (e_v2 e) + 0.5 + MAX_INV_ERR)
        (left_edges s) (nleft s - 1) l1")
      case Outside
      then show ?thesis
        using assms l1 r1 by (simp add: scan_row_def Let_def)
    next
      case Ended
      then show ?thesis
        using assms l1 r1 by (simp add: scan_row_def Let_def)
    next
      case l2: (At l2)
      show ?thesis
      proof (cases "skip_edges (\<lambda>e. pyt > vy (e_v2 e) + 0.5 + MAX_INV_ERR)
          (right_edges s) (nright s - 1) r1")
        case Outside
        then show ?thesis
          using assms l1 r1 l2 by (simp add: scan_row_def Let_def)
      next
        case Ended
        then show ?thesis
          using assms l1 r1 l2 by (simp add: scan_row_def Let_def)
      next
        case r2: (At r2)
        define xlb where "xlb = e_m (left_edges s ! nat l1) * double_of_int y
          + e_c (left_edges s ! nat l1) - MAX_INV_ERR"
        define xrb where "xrb = e_m (right_edges s ! nat r1) * double_of_int y
          + e_c (right_edges s ! nat r1) + MAX_INV_ERR"
        define xlt where "xlt = e_m (left_edges s ! nat l2) * double_of_int y
          + e_c (left_edges s ! nat l2) - MAX_INV_ERR"
        define xrt where "xrt = e_m (right_edges s ! nat r2) * double_of_int y
          + e_c (right_edges s ! nat r2) + MAX_INV_ERR"
        obtain code a b where si: "scan_interval s xlb xrb xlt xrt = (code, a, b)"
          by (cases "scan_interval s xlb xrb xlt xrt") auto
        have code: "code = 0 \<or> code = 3"
          using scan_interval_code [of s xlb xrb xlt xrt] si by simp
        have "scan_row s y pyb pyt x1 x2 =
            Some (code, s\<lparr>left := Some l2, right := Some r2\<rparr>, a, b)"
          using assms l1 r1 l2 r2 si
          by (simp add: scan_row_def Let_def xlb_def xrb_def xlt_def xrt_def)
        with code show ?thesis
          by simp
      qed
    qed
  qed
qed

lemma get_scanline_limits_scan:
  assumes "\<not> row_rejected s y" "left s = Some l" "right s = Some r"
  shows "get_scanline_limits s y x1 x2 = None \<or>
    get_scanline_limits s y x1 x2 = Some (1, s\<lparr>left := None, right := None\<rparr>, x1, x2) \<or>
    (\<exists>code s' a b. get_scanline_limits s y x1 x2 = Some (code, s', a, b) \<and>
       (code = 0 \<or> code = 3) \<and> left s' \<noteq> None \<and> right s' \<noteq> None)"
  using scan_row_cases [OF assms(2,3)] by (simp add: get_scanline_limits_scan_row [OF assms(1)])

lemma get_scanline_limits_ended:
  assumes "get_scanline_limits s y x1 x2 = Some (1, s', a, b)"
  shows "left s' = None \<or> right s' = None"
proof (cases "row_rejected s y")
  case True
  with assms get_scanline_limits_rejected [OF True, of x1 x2] show ?thesis
    by simp
next
  case nr: False
  show ?thesis
  proof (cases "left s = None \<or> right s = None")
    case True
    with assms get_scanline_limits_null [OF nr True, of x1 x2] show ?thesis
      by auto
  next
    case False
    then obtain l r where "left s = Some l" "right s = Some r"
      by auto
    from get_scanline_limits_scan [OF nr this, of x1 x2] assms show ?thesis
      by auto
  qed
qed

lemma scan_rows_ended:
  assumes "left s = None \<or> right s = None"
  shows "scan_rows s ys = map (\<lambda>y. if row_rejected s y then 2 else 1) ys"
proof (induction ys)
  case Nil
  show ?case by simp
next
  case (Cons y ys)
  show ?case
  proof (cases "row_rejected s y")
    case True
    with Cons get_scanline_limits_rejected [OF True, of 0 0] show ?thesis
      by simp
  next
    case False
    with Cons get_scanline_limits_null [OF False assms, of 0 0] show ?thesis
      by simp
  qed
qed

text \<open>
  C4 (as amended).  Once a call of \<^verbatim>\<open>get_scanline_limits\<close> has returned 1 (scan ended),
  every later call on that scanner, for any row, returns 2 (out of bounds) if the row
  fails the two bounds checks at the head of the function, and 1 otherwise; it leaves
  the scanner and the output limits unchanged.  So no later call returns 0 or 3: the
  scanner never produces an interval again.
\<close>

theorem scan_ended_persists:
  assumes "get_scanline_limits s y x1 x2 = Some (1, s', a, b)"
  shows "get_scanline_limits s' y' x1' x2' =
      Some (if row_rejected s' y' then 2 else 1, s', x1', x2') \<and>
    scan_rows s' ys = map (\<lambda>y. if row_rejected s' y then 2 else 1) ys"
proof -
  note e = get_scanline_limits_ended [OF assms]
  have "get_scanline_limits s' y' x1' x2' =
      Some (if row_rejected s' y' then 2 else 1, s', x1', x2')"
    using get_scanline_limits_rejected [of s' y' x1' x2']
      get_scanline_limits_null [OF _ e, of y' x1' x2'] by simp
  with scan_rows_ended [OF e] show ?thesis
    by simp
qed

text \<open>
  C6 (as amended).  \<^verbatim>\<open>get_scanline_limits\<close> returns 2 (out of bounds) exactly when the clip
  range is not empty (\<open>ymax \<ge> ymin\<close>) and \<open>y < 0\<close> or \<open>y > ymax\<close>, or when
  \<open>y + 0.5 \<le> min_y\<close>, or when \<open>y - 0.5 \<ge> max_y + 1\<close>; it then leaves the scanner and the
  output limits unchanged.  The lower clip bound that is tested is 0, not \<open>ymin\<close>.
\<close>

theorem out_of_bounds_rows:
  "(case get_scanline_limits s y x1 x2 of
      None \<Rightarrow> False
    | Some (code, s', a, b) \<Rightarrow> code = 2) = row_rejected s y \<and>
   (case get_scanline_limits s y x1 x2 of
      None \<Rightarrow> False
    | Some (code, s', a, b) \<Rightarrow> code = 2 \<and> s' = s \<and> a = x1 \<and> b = x2) = row_rejected s y"
proof (cases "row_rejected s y")
  case True
  with get_scanline_limits_rejected [OF True, of x1 x2] show ?thesis
    by simp
next
  case nr: False
  show ?thesis
  proof (cases "left s = None \<or> right s = None")
    case True
    with nr get_scanline_limits_null [OF nr True, of x1 x2] show ?thesis
      by simp
  next
    case False
    then obtain l r where "left s = Some l" "right s = Some r"
      by auto
    from get_scanline_limits_scan [OF nr this, of x1 x2] nr show ?thesis
      by auto
  qed
qed

lemma tall_triangle_eval:
  "v tall_triangle = map (\<lambda>(a, b). \<lparr>vx = Fin a, vy = Fin b\<rparr>)
     [(0, 0), (4, 0), (2, 16 / 5), (0, 0), (0, 0), (0, 0), (0, 0), (0, 0),
      (0, 0), (0, 0), (0, 0), (0, 0), (0, 0), (0, 0), (0, 0), (0, 0)]"
  "npv tall_triangle = 3"
  by (simp_all add: tall_triangle_def polygon_of_eval eval_nat_numeral)

lemma replicate_16: "replicate 16 a = a # replicate 15 a"
  by (simp add: eval_nat_numeral)

lemma mod_c_minus_one: "0 < b \<Longrightarrow> mod_c (- 1) b = b - 1"
  by (simp add: mod_c_def c_rem_def sgn_if)

lemma upt_Suc_0_3: "[Suc 0..<3] = [Suc 0, 2]"
  by (simp add: upt_rec)

lemma find_tall_triangle:
  "find_min tall_triangle = (0, Fin 0)" "find_max tall_triangle = (2, Fin (16 / 5))"
  by (simp_all add: find_min_def find_max_def tall_triangle_eval upt_Suc_0_3)

lemma triangle_scanner_eval:
  "triangle_scanner =
     \<lparr>left_edges =
        \<lparr>e_v1 = \<lparr>vx = Fin 0, vy = Fin 0\<rparr>, e_v2 = \<lparr>vx = Fin 2, vy = Fin (16 / 5)\<rparr>,
         e_p = - 1, e_m = Fin (5 / 8), e_b = Fin 0, e_c = Fin (13 / 16)\<rparr>
        # replicate 15 blank_edge,
      right_edges =
        \<lparr>e_v1 = \<lparr>vx = Fin 4, vy = Fin 0\<rparr>, e_v2 = \<lparr>vx = Fin 2, vy = Fin (16 / 5)\<rparr>,
         e_p = 1, e_m = Fin (- (5 / 8)), e_b = Fin 4, e_c = Fin (51 / 16)\<rparr>
        # replicate 15 blank_edge,
      left = Some 0, right = Some 0, nleft = 1, nright = 1,
      min_y = Fin 0, max_y = Fin (16 / 5),
      s_xmin = 0, s_xmax = 9, s_ymin = 2, s_ymax = 9, overlap_valid = 0\<rparr>"
  by (simp add: triangle_scanner_def init_scanner_def find_tall_triangle
      tall_triangle_eval clip_par_def blank_scanner_def replicate_16 init_edge_def
      copysign_def VERTEX_ATOL_def mod_c_nonneg mod_c_minus_one upt_rec [of 0 1]
      Let_def double_eval)

theorem scan_ended_persists_witness:
  "get_scanline_limits triangle_scanner 4 0 0 = Some (1, ended_scanner, 0, 0) \<and>
   get_scanline_limits ended_scanner 4 7 8 =
     Some (if row_rejected ended_scanner 4 then 2 else 1, ended_scanner, 7, 8) \<and>
   scan_rows ended_scanner [4, 5, 6] =
     map (\<lambda>y. if row_rejected ended_scanner y then 2 else 1) [4, 5, 6]"
proof -
  have h: "get_scanline_limits triangle_scanner 4 0 0 = Some (1, ended_scanner, 0, 0)"
    by (simp add: ended_scanner_def triangle_scanner_eval get_scanline_limits_def scan_row_def
        skip_edges.simps Let_def MAX_INV_ERR_Fin double_eval)
  from h scan_ended_persists [OF h, of 4 7 8 "[4, 5, 6]"] show ?thesis
    by simp
qed

text \<open>
  C4 (as stated) fails: on the scanner of the triangle, the query for row 4 returns 1
  (scan ended), and the following query, for row 5, returns 2 (out of bounds), not 1.
\<close>

theorem scan_ended_then_out_of_bounds:
  "scan_rows triangle_scanner [4, 5] = [1, 2]"
  by (simp add: triangle_scanner_eval get_scanline_limits_def scan_row_def skip_edges.simps
      Let_def MAX_INV_ERR_Fin double_eval)

text \<open>
  C6 (as stated) fails: the scanner of the triangle has the clip range \<open>[2, 9]\<close> for y, and
  the query for row 1, below the range, returns 0 with the interval from 1 to 3.
\<close>

theorem row_below_ymin_accepted:
  "s_ymin triangle_scanner = 2 \<and> s_ymax triangle_scanner = 9 \<and>
   get_scanline_limits triangle_scanner 1 0 0 = Some (0, triangle_scanner, 1, 3)"
  by (simp add: triangle_scanner_eval get_scanline_limits_def scan_row_def skip_edges.simps
      scan_interval_def Let_def MAX_INV_ERR_Fin double_eval)

section \<open>Normalisation and orientation\<close>

lemma less_dsqrt:
  assumes "0 \<le> b" "0 \<le> a"
  shows "(Fin b < dsqrt (Fin a)) = (b * b < a)"
proof -
  have "b = sqrt (b * b)"
    using assms(1) by simp
  then have "(b < sqrt a) = (sqrt (b * b) < sqrt a)"
    by simp
  also have "\<dots> = (b * b < a)"
    by (rule real_sqrt_less_iff)
  finally show ?thesis
    using assms(2) by simp
qed





subsection \<open>Turns and sums over chains\<close>




lemma cross3_same [simp]: "cross3 a a c = 0" "cross3 a b a = 0"
  by (simp_all add: cross3_def)





subsection \<open>Pairs and triples of a subsequence and of the reversed list\<close>











subsection \<open>The reversal loop of \<^verbatim>\<open>orient_ccw\<close>\<close>





subsection \<open>The orientation test of \<^verbatim>\<open>orient_ccw\<close>\<close>

lemma fold_centre:
  assumes "\<And>k. k < length ps \<Longrightarrow> vs ! k = fin_vertex (ps ! k)" "m \<le> length ps"
  shows "fold (\<lambda>k cm. \<lparr>vx = vx cm + vx (vs ! k), vy = vy cm + vy (vs ! k)\<rparr>) [0..<m]
      \<lparr>vx = Fin a, vy = Fin b\<rparr> =
    \<lparr>vx = Fin (a + sum_list (map fst (take m ps))), vy = Fin (b + sum_list (map snd (take m ps)))\<rparr>"
  using assms(2)
proof (induction m)
  case 0
  show ?case by simp
next
  case (Suc m)
  then have m: "m < length ps"
    by simp
  obtain c d where cd: "ps ! m = (c, d)"
    by (cases "ps ! m")
  from Suc m show ?case
    by (simp add: take_Suc_conv_app_nth assms(1) cd algebra_simps)
qed

lemma fin_vertex_nth:
  assumes "take n vs = map fin_vertex ps" "n = length ps" "k < length ps"
  shows "vs ! k = fin_vertex (ps ! k)"
proof -
  have "vs ! k = take n vs ! k"
    using assms(2,3) by simp
  also have "\<dots> = fin_vertex (ps ! k)"
    using assms(3) by (simp add: assms(1))
  finally show ?thesis .
qed

lemma orient_ccw_centre:
  assumes tk: "take (nat (npv p)) (v p) = map fin_vertex ps"
    and n: "npv p = int (length ps)" and n3: "3 \<le> length ps"
  shows "orient_ccw (fin_vertex c0) p =
    (if 0 \<le> centre_turn c0 ps then p
     else p\<lparr>v := fold (\<lambda>k vs. swap_vertices vs (int k) (npv p - 1 - int k))
                  [0..<nat (npv p div 2)] (v p)\<rparr>)"
proof -
  obtain a b where c0: "c0 = (a, b)"
    by (cases c0)
  define S where "S = a + sum_list (map fst ps)"
  define T where "T = b + sum_list (map snd ps)"
  define N where "N = real (length ps)"
  have "0 < length ps"
    using n3 by linarith
  then have N: "0 < N"
    by (simp add: N_def)
  have nth: "v p ! k = fin_vertex (ps ! k)" if "k < length ps" for k
    using fin_vertex_nth [OF tk _ that] n by simp
  obtain a0 b0 where p0: "ps ! 0 = (a0, b0)"
    by (cases "ps ! 0")
  obtain a1 b1 where p1: "ps ! 1 = (a1, b1)"
    by (cases "ps ! 1")
  have p1': "ps ! Suc 0 = (a1, b1)"
    using p1 by simp
  have l01: "0 < length ps" "1 < length ps"
    using n3 by linarith+
  have v0: "v p ! 0 = \<lparr>vx = Fin a0, vy = Fin b0\<rparr>"
    using nth [OF l01(1)] p0 by simp
  have v1: "v p ! 1 = \<lparr>vx = Fin a1, vy = Fin b1\<rparr>"
    using nth [OF l01(2)] p1 by simp
  have v1': "v p ! Suc 0 = \<lparr>vx = Fin a1, vy = Fin b1\<rparr>"
    using v1 by simp
  define c where "c = fold (\<lambda>k cm. \<lparr>vx = vx cm + vx (v p ! k), vy = vy cm + vy (v p ! k)\<rparr>)
      [0..<nat (npv p)] (fin_vertex c0)"
  have c: "c = \<lparr>vx = Fin S, vy = Fin T\<rparr>"
    using fold_centre [of ps "v p" "length ps" a b, OF nth]
    by (simp add: c_def n c0 S_def T_def)
  have dn: "double_of_int (npv p) = Fin N"
    by (simp add: double_of_int_def n N_def)
  define cmv where "cmv = \<lparr>vx = vx c / double_of_int (npv p), vy = vy c / double_of_int (npv p)\<rparr>"
  have cmv: "cmv = \<lparr>vx = Fin (S / N), vy = Fin (T / N)\<rparr>"
    using N by (simp add: cmv_def c dn)
  define t where "t = area \<lparr>vx = vx (v p ! 0) - vx cmv, vy = vy (v p ! 0) - vy cmv\<rparr>
      \<lparr>vx = vx (v p ! 1) - vx cmv, vy = vy (v p ! 1) - vy cmv\<rparr>"
  have t: "t = Fin (cross3 (S / N, T / N) (ps ! 0) (ps ! 1))"
    by (simp add: t_def cmv v0 v1' area_def minus_Fin cross3_def p0 p1')
  have ct: "centre_turn c0 ps = cross3 (S / N, T / N) (ps ! 0) (ps ! 1)"
    by (simp add: centre_turn_def c0 S_def T_def N_def)
  have tsign: "t \<ge> 0 \<longleftrightarrow> 0 \<le> centre_turn c0 ps"
    by (simp only: t ct zero_double_def less_eq_double.simps)
  have n3': "\<not> npv p < 3"
    using n n3 by simp
  have "orient_ccw (fin_vertex c0) p =
    (if t \<ge> 0 then p
     else p\<lparr>v := fold (\<lambda>k vs. swap_vertices vs (int k) (npv p - 1 - int k))
                  [0..<nat (npv p div 2)] (v p)\<rparr>)"
    unfolding orient_ccw_def Let_def t_def cmv_def c_def using n3' by (simp only: if_False)
  then show ?thesis
    by (simp only: tsign)
qed


subsection \<open>The loop of \<^verbatim>\<open>simplify_polygon\<close> keeps a subsequence\<close>



subsection \<open>The signed area of a polygon with finite coordinates\<close>

















lemma polygon_of_points:
  "take (nat (npv (polygon_of xs))) (v (polygon_of xs)) = map fin_vertex xs"
proof -
  have "(\<lambda>(a, b). \<lparr>vx = Fin a, vy = Fin b\<rparr>) = fin_vertex"
    by (rule ext) (simp split: prod.splits)
  then show ?thesis
    by (simp add: polygon_of_def)
qed

lemma cw_square_eval:
  "take (nat (npv cw_square)) (v cw_square) = map fin_vertex [(0, 0), (0, 4), (4, 4), (4, 0)]"
  "npv cw_square = 4"
proof -
  show "take (nat (npv cw_square)) (v cw_square) = map fin_vertex [(0, 0), (0, 4), (4, 4), (4, 0)]"
    by (simp only: cw_square_def polygon_of_points)
  show "npv cw_square = 4"
    by (simp add: cw_square_def polygon_of_def)
qed


text \<open>With other contents of \<^verbatim>\<open>cm\<close> a convex polygon listed counter-clockwise is
  reversed: the square with the corners (0, 0), (4, 0), (4, 4), (0, 4) has the signed
  area 32, and after normalisation with \<^verbatim>\<open>cm\<close> starting at (-100, -100) it has the
  signed area -32.\<close>

lemma square_a_eval:
  "v square_a = map (\<lambda>(a, b). \<lparr>vx = Fin a, vy = Fin b\<rparr>)
     [(0, 0), (4, 0), (4, 4), (0, 4), (0, 0), (0, 0), (0, 0), (0, 0),
      (0, 0), (0, 0), (0, 0), (0, 0), (0, 0), (0, 0), (0, 0), (0, 0)]"
  "npv square_a = 4"
  by (simp_all add: square_a_def polygon_of_eval eval_nat_numeral)

lemma orient_square_a_stale:
  "orient_ccw stale_cm square_a = polygon_of [(0, 4), (4, 4), (4, 0), (0, 0)]"
  by (simp add: orient_ccw_def stale_cm_def square_a_eval upt_small area_def Let_def double_eval
      swap_vertices_def polygon_of_def IMAGE_OUTLINE_NPTS_def eval_nat_numeral upt_rec [of 0 2] upt_rec [of 1 2])

lemma sqrt_above_tolerance: "1 \<le> a \<Longrightarrow> 1 < sqrt a * 1000000000000"
proof -
  assume "1 \<le> a"
  then have "1 \<le> sqrt a"
    by simp
  then have "1000000000000 \<le> sqrt a * 1000000000000"
    by simp
  then show ?thesis
    by linarith
qed

lemma simplify_reversed_square:
  "simplify_polygon (polygon_of [(0, 4), (4, 4), (4, 0), (0, 0)]) = polygon_of [(0, 4), (4, 4), (4, 0), (0, 0)]"
  by (simp add: simplify_polygon_def simplify_loop.simps polygon_of_def IMAGE_OUTLINE_NPTS_def eval_nat_numeral
      area_def Let_def minus_Fin zero_double_def mod_c_nonneg less_dsqrt VERTEX_ATOL_def APPROX_ZERO_Fin sqrt_above_tolerance)

lemma stale_centre_reverses_square:
  "signed_area square_a = 32 \<and> signed_area (normalize stale_cm square_a) = - 32"
  by (simp add: normalize_def orient_square_a_stale simplify_reversed_square signed_area_def
      square_a_eval polygon_of_eval area_def Let_def minus_Fin zero_double_def numeral_double)

text \<open>With \<^verbatim>\<open>cm\<close> starting at zero a clockwise square whose first vertex is listed twice
  is not reversed, since its first two vertices make no turn about any centre; after
  normalisation it is the clockwise triangle (0, 4), (4, 4), (4, 0).\<close>

lemma doubled_square_eval:
  "v doubled_square = map (\<lambda>(a, b). \<lparr>vx = Fin a, vy = Fin b\<rparr>)
     [(0, 0), (0, 0), (0, 4), (4, 4), (4, 0), (0, 0), (0, 0), (0, 0),
      (0, 0), (0, 0), (0, 0), (0, 0), (0, 0), (0, 0), (0, 0), (0, 0)]"
  "npv doubled_square = 5"
  by (simp_all add: doubled_square_def polygon_of_eval eval_nat_numeral)

lemma upt_5: "[0..<5] = [0, 1, 2, 3, 4]"
  by (simp add: upt_rec)

lemma orient_doubled_square: "orient_ccw origin doubled_square = doubled_square"
  by (simp add: orient_ccw_def origin_def doubled_square_eval upt_5 area_def Let_def double_eval)

lemma simplify_doubled_square:
  "simplify_polygon doubled_square =
     \<lparr>v = map (\<lambda>(a, b). \<lparr>vx = Fin a, vy = Fin b\<rparr>)
        [(0, 4), (4, 4), (4, 0), (4, 4), (4, 0), (0, 0), (0, 0), (0, 0),
         (0, 0), (0, 0), (0, 0), (0, 0), (0, 0), (0, 0), (0, 0), (0, 0)],
      npv = 3\<rparr>"
  by (simp add: simplify_polygon_def simplify_loop.simps doubled_square_eval eval_nat_numeral
      area_def Let_def minus_Fin zero_double_def mod_c_nonneg less_dsqrt VERTEX_ATOL_def
      APPROX_ZERO_Fin sqrt_above_tolerance)

lemma doubled_first_vertex_stays_clockwise:
  "signed_area doubled_square = - 32 \<and> signed_area (normalize origin doubled_square) = - 16"
  by (simp add: normalize_def orient_doubled_square simplify_doubled_square signed_area_def
      doubled_square_eval area_def Let_def minus_Fin zero_double_def numeral_double)

section \<open>The overlap of an input image with the output image\<close>

subsection \<open>Inverting an affine pixel map at the corners of the valid region\<close>

lemma interpolate_squeeze:
  "interpolate_point squeeze_par (Fin a) (Fin b) = (0, Fin (a + 1), Fin (b / 4 + 1 / 4))"
proof -
  define i where "i = real_of_int (clamp_base 4 (Fin a))"
  define j where "j = real_of_int (clamp_base 4 (Fin b))"
  have x: "(i + 1) * (1 - (a - i)) * (1 - (b - j)) + (i + 1 + 1) * (a - i) * (1 - (b - j)) +
      (i + 1) * (1 - (a - i)) * (b - j) + (i + 1 + 1) * (a - i) * (b - j) = a + 1"
    by (simp add: algebra_simps)
  have y: "(j / 4 + 1 / 4) * (1 - (a - i)) * (1 - (b - j)) + (j / 4 + 1 / 4) * (a - i) * (1 - (b - j)) +
      ((j + 1) / 4 + 1 / 4) * (1 - (a - i)) * (b - j) + ((j + 1) / 4 + 1 / 4) * (a - i) * (b - j) =
      b / 4 + 1 / 4"
    by (simp add: field_simps)
  have "interpolate_point squeeze_par (Fin a) (Fin b) =
    (0, Fin ((i + 1) * (1 - (a - i)) * (1 - (b - j)) + (i + 1 + 1) * (a - i) * (1 - (b - j)) +
      (i + 1) * (1 - (a - i)) * (b - j) + (i + 1 + 1) * (a - i) * (b - j)),
     Fin ((j / 4 + 1 / 4) * (1 - (a - i)) * (1 - (b - j)) + (j / 4 + 1 / 4) * (a - i) * (1 - (b - j)) +
      ((j + 1) / 4 + 1 / 4) * (1 - (a - i)) * (b - j) + ((j + 1) / 4 + 1 / 4) * (a - i) * (b - j)))"
    by (simp add: interpolate_point_def Let_def squeeze_par_def squeeze_pixmap_def get_pixmap_def
        double_eval i_def j_def)
  then show ?thesis
    by (simp only: x y)
qed

lemma eval_inversion_squeeze:
  "eval_inversion squeeze_par (Fin a) (Fin b) (Fin c, Fin d) =
     Some (Fin ((a + 1 - c) * (a + 1 - c) + (b / 4 + 1 / 4 - d) * (b / 4 + 1 / 4 - d)))"
  by (simp add: eval_inversion_def interpolate_squeeze double_eval)

text \<open>When the distance is a sum of a part that depends on the abscissa and a part that
  depends on the ordinate, the quadrant that is kept is the one with the smaller part in
  each coordinate.\<close>

lemma golden_shrink_select:
  assumes "A1 \<noteq> A2" "B1 \<noteq> B2"
  shows "golden_shrink b x1 x2 y1 y2 (Fin (A1 + B1)) (Fin (A1 + B2)) (Fin (A2 + B1)) (Fin (A2 + B2)) =
    (let xn = (if A1 < A2 then b_xmin b else x1); xx = (if A1 < A2 then x2 else b_xmax b);
         yn = (if B1 < B2 then b_ymin b else y1); yx = (if B1 < B2 then y2 else b_ymax b)
     in b\<lparr>b_xmin := xn, b_xmax := xx, b_ymin := yn, b_ymax := yx,
          b_dx := xx - xn, b_dy := yx - yn\<rparr>)"
proof -
  consider "A1 < A2" "B1 < B2" | "A1 < A2" "B2 < B1" | "A2 < A1" "B1 < B2" | "A2 < A1" "B2 < B1"
    using assms by linarith
  then show ?thesis
  proof cases
    case 1
    then show ?thesis by (simp add: golden_shrink_def Let_def)
  next
    case 2
    then show ?thesis by (simp add: golden_shrink_def Let_def)
  next
    case 3
    then show ?thesis by (simp add: golden_shrink_def Let_def)
  next
    case 4
    then show ?thesis by (simp add: golden_shrink_def Let_def)
  qed
qed

lemma golden_width_pos: "0 < golden_width n"
  by (simp add: golden_width_def)

lemma golden_width_Suc:
  "golden_width (Suc n) = 6180339887498948482 / 10 ^ 19 * golden_width n"
  by (simp add: golden_width_def)

lemma square_order:
  fixes P Q :: real
  assumes "0 < P" "P < Q"
  shows "P * P < Q * Q"
  by (rule mult_strict_mono) (use assms in auto)

text \<open>One coordinate of the search at a corner: the sample next to the corner is the
  closer one.  \<open>P\<close> and \<open>Q\<close> are the distances of the two samples from the corner.\<close>

lemma corner_axis:
  fixes w g :: real and h :: bool
  assumes w: "0 < w" and g: "1 / 2 < g" "g < 1"
  defines "x1 \<equiv> corner_hi h w - g * w" and "x2 \<equiv> corner_lo h w + g * w"
    and "t \<equiv> (if h then 7 / 2 else - 1 / 2 :: real)"
  shows "(x1 - t) * (x1 - t) \<noteq> (x2 - t) * (x2 - t)"
    and "(x1 - t) * (x1 - t) < (x2 - t) * (x2 - t) \<longleftrightarrow> \<not> h"
proof -
  define P where "P = (1 - g) * w"
  define Q where "Q = g * w"
  have P: "0 < P"
    using w g by (simp add: P_def)
  have "(1 - g) * w < g * w"
    using w g by simp
  then have PQ: "P < Q"
    by (simp add: P_def Q_def)
  note lt = square_order [OF P PQ]
  have "(x1 - t) * (x1 - t) \<noteq> (x2 - t) * (x2 - t) \<and>
    ((x1 - t) * (x1 - t) < (x2 - t) * (x2 - t) \<longleftrightarrow> \<not> h)"
  proof (cases h)
    case True
    have "x1 - t = - Q" "x2 - t = - P"
      using True by (simp_all add: x1_def x2_def t_def corner_hi_def corner_lo_def P_def Q_def
          algebra_simps)
    with lt True show ?thesis
      by simp
  next
    case False
    have "x1 - t = P" "x2 - t = Q"
      using False by (simp_all add: x1_def x2_def t_def corner_hi_def corner_lo_def P_def Q_def
          algebra_simps)
    with lt False show ?thesis
      by simp
  qed
  then show "(x1 - t) * (x1 - t) \<noteq> (x2 - t) * (x2 - t)"
    and "(x1 - t) * (x1 - t) < (x2 - t) * (x2 - t) \<longleftrightarrow> \<not> h"
    by simp_all
qed


lemma corner_step:
  "golden_body squeeze_par (corner_target hx hy) (corner_bracket hx hy n) =
     Inr (corner_bracket hx hy (Suc n))"
proof -
  define g :: real where "g = 6180339887498948482 / 10 ^ 19"
  define w where "w = golden_width n"
  have g: "1 / 2 < g" "g < 1"
    by (simp_all add: g_def)
  have w: "0 < w"
    by (simp add: w_def golden_width_pos)
  have w': "golden_width (Suc n) = g * w"
    by (simp add: golden_width_Suc g_def w_def)
  define x1 where "x1 = corner_hi hx w - g * w"
  define x2 where "x2 = corner_lo hx w + g * w"
  define y1 where "y1 = corner_hi hy w - g * w"
  define y2 where "y2 = corner_lo hy w + g * w"
  define tx where "tx = (if hx then 7 / 2 else - 1 / 2 :: real)"
  define ty where "ty = (if hy then 7 / 2 else - 1 / 2 :: real)"
  define A1 where "A1 = (x1 - tx) * (x1 - tx)"
  define A2 where "A2 = (x2 - tx) * (x2 - tx)"
  define B1 where "B1 = (y1 - ty) * (y1 - ty) / 16"
  define B2 where "B2 = (y2 - ty) * (y2 - ty) / 16"
  note ax = corner_axis [OF w g, of hx, folded x1_def x2_def tx_def A1_def A2_def]
  note ay = corner_axis [OF w g, of hy, folded y1_def y2_def ty_def]
  have A: "A1 \<noteq> A2" "A1 < A2 \<longleftrightarrow> \<not> hx"
    using ax by (simp_all add: A1_def A2_def)
  have B: "B1 \<noteq> B2" "B1 < B2 \<longleftrightarrow> \<not> hy"
    using ay by (simp_all add: B1_def B2_def)
  have ev: "eval_inversion squeeze_par (Fin x) (Fin y) (corner_target hx hy) =
      Some (Fin ((x - tx) * (x - tx) + (y - ty) * (y - ty) / 16))" for x y
    by (simp add: corner_target_def eval_inversion_squeeze tx_def ty_def field_simps)
  define c where "c = (corner_bracket hx hy n)\<lparr>b_niter := int n + 1\<rparr>"
  have body: "golden_body squeeze_par (corner_target hx hy) (corner_bracket hx hy n) =
      Inr (golden_shrink c (Fin x1) (Fin x2) (Fin y1) (Fin y2)
        (Fin (A1 + B1)) (Fin (A1 + B2)) (Fin (A2 + B1)) (Fin (A2 + B2)))"
    by (simp add: golden_body_def Let_def corner_bracket_def gr_Fin minus_Fin ev c_def
        x1_def x2_def y1_def y2_def A1_def A2_def B1_def B2_def w_def g_def)
  have sel: "golden_shrink c (Fin x1) (Fin x2) (Fin y1) (Fin y2)
        (Fin (A1 + B1)) (Fin (A1 + B2)) (Fin (A2 + B1)) (Fin (A2 + B2)) =
      corner_bracket hx hy (Suc n)"
    unfolding golden_shrink_select [OF A(1) B(1)] A(2) B(2)
    by (cases hx; cases hy)
      (simp_all add: c_def corner_bracket_def Let_def w' minus_Fin corner_lo_def corner_hi_def
        x1_def x2_def y1_def y2_def w_def [symmetric])
  show ?thesis
    by (simp only: body sel)
qed

lemma init_squeeze:
  "init_bracket squeeze_par =
     \<lparr>b_xmin = Fin (- 1 / 2), b_xmax = Fin (7 / 2), b_ymin = Fin (- 1 / 2), b_ymax = Fin (7 / 2),
      b_dx = Fin (7 / 2), b_dy = Fin (7 / 2), b_niter = 0\<rparr>"
  by (simp add: init_bracket_def squeeze_par_def double_eval Let_def)

lemma corner_first_step:
  "golden_body squeeze_par (corner_target hx hy) (init_bracket squeeze_par) =
     Inr (corner_bracket hx hy 1)"
  by (cases hx; cases hy)
    (simp_all add: init_squeeze golden_body_def golden_shrink_def eval_inversion_squeeze
      corner_target_def corner_bracket_def corner_lo_def corner_hi_def golden_width_def
      gr_Fin minus_Fin Let_def)

lemma golden_width_bounds:
  "n \<le> 9 \<Longrightarrow> 3 / 100 < golden_width n" "golden_width 10 \<le> 3 / 100"
proof -
  define g :: real where "g = 6180339887498948482 / 10 ^ 19"
  have lo: "618 / 1000 \<le> g" and hi: "g \<le> 6181 / 10000" and g1: "g \<le> 1" and g0: "0 \<le> g"
    by (simp_all add: g_def)
  show "3 / 100 < golden_width n" if "n \<le> 9"
  proof -
    have "(618 / 1000 :: real) ^ 9 \<le> g ^ 9"
      by (rule power_mono) (use lo in simp_all)
    also have "\<dots> \<le> g ^ n"
      by (rule power_decreasing) (use that g0 g1 in simp_all)
    finally have "7 / 2 * (618 / 1000 :: real) ^ 9 \<le> golden_width n"
      by (simp add: golden_width_def g_def)
    moreover have "3 / 100 < 7 / 2 * (618 / 1000 :: real) ^ 9"
      by (simp add: power_divide)
    ultimately show ?thesis
      by linarith
  qed
  show "golden_width 10 \<le> 3 / 100"
  proof -
    have "g ^ 10 \<le> (6181 / 10000) ^ 10"
      by (rule power_mono) (use hi g0 in simp_all)
    then have "golden_width 10 \<le> 7 / 2 * (6181 / 10000) ^ 10"
      by (simp add: golden_width_def g_def)
    moreover have "7 / 2 * (6181 / 10000 :: real) ^ 10 \<le> 3 / 100"
      by (simp add: power_divide)
    ultimately show ?thesis
      by linarith
  qed
qed

lemma corner_loop:
  "1 \<le> n \<Longrightarrow> n \<le> 10 \<Longrightarrow>
   golden_loop squeeze_par (corner_target hx hy) (corner_bracket hx hy n) =
     Inr (corner_bracket hx hy 10)"
proof (induction "10 - n" arbitrary: n)
  case 0
  then have n: "n = 10"
    by simp
  have "\<not> golden_cond (corner_bracket hx hy 10)"
    using golden_width_bounds(2)
    by (simp add: golden_cond_def corner_bracket_def MAX_INV_ERR_Fin)
  then show ?case
    by (simp add: n golden_loop.simps [of _ _ "corner_bracket hx hy 10"])
next
  case (Suc k)
  then have n: "n \<le> 9" "1 \<le> Suc n" "Suc n \<le> 10" "k = 10 - Suc n"
    by simp_all
  have "golden_cond (corner_bracket hx hy n)"
    using golden_width_bounds(1) [OF n(1)] n(1)
    by (simp add: golden_cond_def corner_bracket_def MAX_INV_ERR_Fin nmax_iter_def)
  then have "golden_loop squeeze_par (corner_target hx hy) (corner_bracket hx hy n) =
      golden_loop squeeze_par (corner_target hx hy) (corner_bracket hx hy (Suc n))"
    by (simp add: golden_loop.simps [of _ _ "corner_bracket hx hy n"] corner_step)
  with Suc.hyps(1) [OF n(4) n(2) n(3)] show ?case
    by simp
qed

text \<open>The inversion at a corner returns the centre of the tenth bracket: the corner, moved
  inwards by half the width of that bracket in each coordinate.\<close>

lemma invert_corner:
  "invert_pixmap squeeze_par (corner_target hx hy) xyin =
     (0, Fin (if hx then 7 / 2 - golden_width 10 / 2 else - 1 / 2 + golden_width 10 / 2),
         Fin (if hy then 7 / 2 - golden_width 10 / 2 else - 1 / 2 + golden_width 10 / 2))"
proof -
  have "golden_cond (init_bracket squeeze_par)"
    by (simp add: init_squeeze golden_cond_def MAX_INV_ERR_Fin nmax_iter_def)
  then have "golden_loop squeeze_par (corner_target hx hy) (init_bracket squeeze_par) =
      golden_loop squeeze_par (corner_target hx hy) (corner_bracket hx hy 1)"
    by (simp add: golden_loop.simps [of _ _ "init_bracket squeeze_par"] corner_first_step)
  also have "\<dots> = Inr (corner_bracket hx hy 10)"
    by (rule corner_loop) simp_all
  finally show ?thesis
    by (simp add: invert_pixmap_def corner_bracket_def corner_lo_def corner_hi_def nmax_iter_def
        numeral_double)
qed



subsection \<open>The overlap polygon of the example\<close>

lemma invert_corners:
  "invert_pixmap squeeze_par (Fin (1 / 2), Fin (1 / 8)) xyin =
     (0, Fin (- 1 / 2 + golden_width 10 / 2), Fin (- 1 / 2 + golden_width 10 / 2))"
  "invert_pixmap squeeze_par (Fin (9 / 2), Fin (1 / 8)) xyin =
     (0, Fin (7 / 2 - golden_width 10 / 2), Fin (- 1 / 2 + golden_width 10 / 2))"
  "invert_pixmap squeeze_par (Fin (9 / 2), Fin (9 / 8)) xyin =
     (0, Fin (7 / 2 - golden_width 10 / 2), Fin (7 / 2 - golden_width 10 / 2))"
  "invert_pixmap squeeze_par (Fin (1 / 2), Fin (9 / 8)) xyin =
     (0, Fin (- 1 / 2 + golden_width 10 / 2), Fin (7 / 2 - golden_width 10 / 2))"
  using invert_corner [of False False xyin] invert_corner [of True False xyin]
    invert_corner [of True True xyin] invert_corner [of False True xyin]
  by (simp_all add: corner_target_def)

lemma junk_origin_eval:
  "junk_origin = map fin_vertex
     [(0, 0), (0, 0), (0, 0), (0, 0), (0, 0), (0, 0), (0, 0), (0, 0),
      (0, 0), (0, 0), (0, 0), (0, 0), (0, 0), (0, 0), (0, 0), (0, 0)]"
  by (simp add: junk_origin_def origin_def zero_double_def eval_nat_numeral)

lemma int_of_double_half:
  "int_of_double (Fin (- (1 / 2))) = 0" "int_of_double (Fin (7 / 2)) = 3"
proof -
  have "\<lceil>- 1 / 2 :: real\<rceil> = 0" "\<lfloor>7 / 2 :: real\<rfloor> = 3"
    by (simp_all add: ceiling_eq_iff floor_eq_iff)
  then show "int_of_double (Fin (- (1 / 2))) = 0" "int_of_double (Fin (7 / 2)) = 3"
    by (simp_all add: trunc_real_def)
qed

lemma map_point_new_squeeze:
  "map_point_new squeeze_par (Fin (- 1 / 2)) (Fin (- 1 / 2)) = (0, Fin (1 / 2), Fin (1 / 8))"
  "map_point_new squeeze_par (Fin (7 / 2)) (Fin (- 1 / 2)) = (0, Fin (9 / 2), Fin (1 / 8))"
  "map_point_new squeeze_par (Fin (7 / 2)) (Fin (7 / 2)) = (0, Fin (9 / 2), Fin (9 / 8))"
  "map_point_new squeeze_par (Fin (- 1 / 2)) (Fin (7 / 2)) = (0, Fin (1 / 2), Fin (9 / 8))"
  by (simp_all add: map_point_new_def int_of_double_half interpolate_squeeze double_eval Let_def
      del: int_of_double.simps)

lemma map_corners_squeeze:
  "map_corners squeeze_par
     (junk_origin[0 := \<lparr>vx = Fin (- 1 / 2), vy = Fin (- 1 / 2)\<rparr>,
                  1 := \<lparr>vx = Fin (7 / 2), vy = Fin (- 1 / 2)\<rparr>,
                  2 := \<lparr>vx = Fin (7 / 2), vy = Fin (7 / 2)\<rparr>,
                  3 := \<lparr>vx = Fin (- 1 / 2), vy = Fin (7 / 2)\<rparr>]) [0, 1, 2, 3] junk_origin =
   (True, map fin_vertex
     [(1 / 2, 1 / 8), (9 / 2, 1 / 8), (9 / 2, 9 / 8), (1 / 2, 9 / 8), (0, 0), (0, 0), (0, 0), (0, 0),
      (0, 0), (0, 0), (0, 0), (0, 0), (0, 0), (0, 0), (0, 0), (0, 0)])"
  using map_point_new_squeeze
  by (simp add: junk_origin_eval map_to_output_vertex_def)



lemma intersect_squeeze:
  "intersect_convex_polygons origin origin
     \<lparr>v = map fin_vertex
        [(1 / 2, 1 / 8), (9 / 2, 1 / 8), (9 / 2, 9 / 8), (1 / 2, 9 / 8), (0, 0), (0, 0), (0, 0), (0, 0),
         (0, 0), (0, 0), (0, 0), (0, 0), (0, 0), (0, 0), (0, 0), (0, 0)], npv = 4\<rparr>
     \<lparr>v = map fin_vertex
        [(- 1 / 2, - 1 / 2), (11 / 2, - 1 / 2), (11 / 2, 3 / 2), (- 1 / 2, 3 / 2), (0, 0), (0, 0), (0, 0), (0, 0),
         (0, 0), (0, 0), (0, 0), (0, 0), (0, 0), (0, 0), (0, 0), (0, 0)], npv = 4\<rparr>
     \<lparr>v = junk_origin, npv = 0\<rparr> =
   (0,
    \<lparr>v = map fin_vertex
        [(1 / 2, 1 / 8), (9 / 2, 1 / 8), (9 / 2, 9 / 8), (1 / 2, 9 / 8), (0, 0), (0, 0), (0, 0), (0, 0),
         (0, 0), (0, 0), (0, 0), (0, 0), (0, 0), (0, 0), (0, 0), (0, 0)], npv = 4\<rparr>,
    \<lparr>v = map fin_vertex
        [(- 1 / 2, - 1 / 2), (11 / 2, - 1 / 2), (11 / 2, 3 / 2), (- 1 / 2, 3 / 2), (0, 0), (0, 0), (0, 0), (0, 0),
         (0, 0), (0, 0), (0, 0), (0, 0), (0, 0), (0, 0), (0, 0), (0, 0)], npv = 4\<rparr>,
    \<lparr>v = map fin_vertex
        [(1 / 2, 1 / 8), (9 / 2, 1 / 8), (9 / 2, 9 / 8), (1 / 2, 9 / 8), (0, 0), (0, 0), (0, 0), (0, 0),
         (0, 0), (0, 0), (0, 0), (0, 0), (0, 0), (0, 0), (0, 0), (0, 0)], npv = 4\<rparr>)"
proof -
  define p where "p = \<lparr>v = map fin_vertex
        [(1 / 2, 1 / 8), (9 / 2, 1 / 8), (9 / 2, 9 / 8), (1 / 2, 9 / 8), (0, 0), (0, 0), (0, 0), (0, 0),
         (0, 0), (0, 0), (0, 0), (0, 0), (0, 0), (0, 0), (0, 0), (0, 0)], npv = 4\<rparr>"
  define q where "q = \<lparr>v = map fin_vertex
        [(- 1 / 2, - 1 / 2), (11 / 2, - 1 / 2), (11 / 2, 3 / 2), (- 1 / 2, 3 / 2), (0, 0), (0, 0), (0, 0), (0, 0),
         (0, 0), (0, 0), (0, 0), (0, 0), (0, 0), (0, 0), (0, 0), (0, 0)], npv = 4\<rparr>"
  have n: "\<not> (npv p < 3 \<or> npv q < 3)"
    by (simp add: p_def q_def)
  have op: "orient_ccw origin p = p"
    by (simp add: orient_ccw_def origin_def p_def upt_small area_def Let_def double_eval)
  have oq: "orient_ccw origin q = q"
    by (simp add: orient_ccw_def origin_def q_def upt_small area_def Let_def double_eval)
  have c: "is_poly_contained p q"
    by (simp add: is_poly_contained_def p_def q_def upt_small is_point_in_hp_def
        area_def APPROX_ZERO_Fin minus_Fin)
  have s: "simplify_polygon p = p"
    by (simp add: simplify_polygon_def simplify_loop.simps p_def eval_nat_numeral
        area_def Let_def minus_Fin zero_double_def mod_c_nonneg less_dsqrt VERTEX_ATOL_def
        APPROX_ZERO_Fin sqrt_above_tolerance)
  have "intersect_convex_polygons origin origin p q \<lparr>v = junk_origin, npv = 0\<rparr> = (0, p, q, p)"
    using n by (simp only: intersect_convex_polygons_def Let_def op oq c s if_False if_True)
  then show ?thesis
    by (simp only: p_def q_def)
qed



lemma invert_vertices_squeeze:
  "invert_vertices squeeze_par
     \<lparr>v = map fin_vertex
        [(1 / 2, 1 / 8), (9 / 2, 1 / 8), (9 / 2, 9 / 8), (1 / 2, 9 / 8), (0, 0), (0, 0), (0, 0), (0, 0),
         (0, 0), (0, 0), (0, 0), (0, 0), (0, 0), (0, 0), (0, 0), (0, 0)], npv = 4\<rparr>
     [0, 1, 2, 3]
     (junk_origin[0 := \<lparr>vx = Fin (- 1 / 2), vy = Fin (- 1 / 2)\<rparr>,
                  1 := \<lparr>vx = Fin (7 / 2), vy = Fin (- 1 / 2)\<rparr>,
                  2 := \<lparr>vx = Fin (7 / 2), vy = Fin (7 / 2)\<rparr>,
                  3 := \<lparr>vx = Fin (- 1 / 2), vy = Fin (7 / 2)\<rparr>]) =
   (True, map fin_vertex
     [(- 1 / 2 + golden_width 10 / 2, - 1 / 2 + golden_width 10 / 2),
      (7 / 2 - golden_width 10 / 2, - 1 / 2 + golden_width 10 / 2),
      (7 / 2 - golden_width 10 / 2, 7 / 2 - golden_width 10 / 2),
      (- 1 / 2 + golden_width 10 / 2, 7 / 2 - golden_width 10 / 2),
      (0, 0), (0, 0), (0, 0), (0, 0),
      (0, 0), (0, 0), (0, 0), (0, 0), (0, 0), (0, 0), (0, 0), (0, 0)])"
  by (simp add: junk_origin_eval map_to_input_vertex_def invert_corners)

lemma golden_width_10: "0 < golden_width 10 / 2" "golden_width 10 / 2 \<le> 3 / 200"
  using golden_width_pos [of 10] golden_width_bounds(2) by simp_all

lemma orient_inverted_squeeze:
  "orient_ccw origin
     \<lparr>v = map fin_vertex
       [(- 1 / 2 + golden_width 10 / 2, - 1 / 2 + golden_width 10 / 2),
        (7 / 2 - golden_width 10 / 2, - 1 / 2 + golden_width 10 / 2),
        (7 / 2 - golden_width 10 / 2, 7 / 2 - golden_width 10 / 2),
        (- 1 / 2 + golden_width 10 / 2, 7 / 2 - golden_width 10 / 2),
        (0, 0), (0, 0), (0, 0), (0, 0),
        (0, 0), (0, 0), (0, 0), (0, 0), (0, 0), (0, 0), (0, 0), (0, 0)], npv = 4\<rparr> =
     \<lparr>v = map fin_vertex
       [(- 1 / 2 + golden_width 10 / 2, - 1 / 2 + golden_width 10 / 2),
        (7 / 2 - golden_width 10 / 2, - 1 / 2 + golden_width 10 / 2),
        (7 / 2 - golden_width 10 / 2, 7 / 2 - golden_width 10 / 2),
        (- 1 / 2 + golden_width 10 / 2, 7 / 2 - golden_width 10 / 2),
        (0, 0), (0, 0), (0, 0), (0, 0),
        (0, 0), (0, 0), (0, 0), (0, 0), (0, 0), (0, 0), (0, 0), (0, 0)], npv = 4\<rparr>"
proof -
  define e where "e = golden_width 10 / 2"
  define ps where "ps = [(- 1 / 2 + e, - 1 / 2 + e), (7 / 2 - e, - 1 / 2 + e),
    (7 / 2 - e, 7 / 2 - e), (- 1 / 2 + e, 7 / 2 - e)]"
  define p where "p = \<lparr>v = map fin_vertex (ps @
        [(0, 0), (0, 0), (0, 0), (0, 0),
         (0, 0), (0, 0), (0, 0), (0, 0), (0, 0), (0, 0), (0, 0), (0, 0)]), npv = 4\<rparr>"
  have tk: "take (nat (npv p)) (v p) = map fin_vertex ps"
    by (simp add: p_def ps_def)
  have n: "npv p = int (length ps)" and n3: "3 \<le> length ps"
    by (simp_all add: p_def ps_def)
  have "centre_turn (0, 0) ps = 2 * ((2 - e) * (2 - e))"
    by (simp add: centre_turn_def ps_def cross3_def algebra_simps)
  then have "0 \<le> centre_turn (0, 0) ps"
    by simp
  with orient_ccw_centre [OF tk n n3, of "(0, 0)"] have "orient_ccw origin p = p"
    by (simp add: origin_def zero_double_def)
  then show ?thesis
    by (simp add: p_def ps_def e_def)
qed

lemma overlap_polygon_squeeze:
  "overlap_polygon origin origin origin junk_origin squeeze_par s =
     (s\<lparr>overlap_valid := 1\<rparr>,
      \<lparr>v = map fin_vertex
        [(- 1 / 2 + golden_width 10 / 2, - 1 / 2 + golden_width 10 / 2),
         (7 / 2 - golden_width 10 / 2, - 1 / 2 + golden_width 10 / 2),
         (7 / 2 - golden_width 10 / 2, 7 / 2 - golden_width 10 / 2),
         (- 1 / 2 + golden_width 10 / 2, 7 / 2 - golden_width 10 / 2),
         (0, 0), (0, 0), (0, 0), (0, 0),
         (0, 0), (0, 0), (0, 0), (0, 0), (0, 0), (0, 0), (0, 0), (0, 0)], npv = 4\<rparr>)"
proof -
  have box: "junk_origin[0 := \<lparr>vx = double_of_int (xmin squeeze_par) - 0.5,
                               vy = double_of_int (ymin squeeze_par) - 0.5\<rparr>,
                         1 := \<lparr>vx = double_of_int (xmax squeeze_par) + 0.5,
                               vy = double_of_int (ymin squeeze_par) - 0.5\<rparr>,
                         2 := \<lparr>vx = double_of_int (xmax squeeze_par) + 0.5,
                               vy = double_of_int (ymax squeeze_par) + 0.5\<rparr>,
                         3 := \<lparr>vx = double_of_int (xmin squeeze_par) - 0.5,
                               vy = double_of_int (ymax squeeze_par) + 0.5\<rparr>] =
      junk_origin[0 := \<lparr>vx = Fin (- 1 / 2), vy = Fin (- 1 / 2)\<rparr>,
                  1 := \<lparr>vx = Fin (7 / 2), vy = Fin (- 1 / 2)\<rparr>,
                  2 := \<lparr>vx = Fin (7 / 2), vy = Fin (7 / 2)\<rparr>,
                  3 := \<lparr>vx = Fin (- 1 / 2), vy = Fin (7 / 2)\<rparr>]"
    by (simp add: squeeze_par_def double_eval)
  have out: "junk_origin[0 := \<lparr>vx = - 0.5, vy = - 0.5\<rparr>,
                         1 := \<lparr>vx = double_of_int (output_ndim1 squeeze_par) - 0.5, vy = - 0.5\<rparr>,
                         2 := \<lparr>vx = double_of_int (output_ndim1 squeeze_par) - 0.5,
                               vy = double_of_int (output_ndim0 squeeze_par) - 0.5\<rparr>,
                         3 := \<lparr>vx = - 0.5, vy = double_of_int (output_ndim0 squeeze_par) - 0.5\<rparr>] =
      map fin_vertex
        [(- 1 / 2, - 1 / 2), (11 / 2, - 1 / 2), (11 / 2, 3 / 2), (- 1 / 2, 3 / 2), (0, 0), (0, 0), (0, 0), (0, 0),
         (0, 0), (0, 0), (0, 0), (0, 0), (0, 0), (0, 0), (0, 0), (0, 0)]"
    by (simp add: squeeze_par_def double_eval junk_origin_eval)
  show ?thesis
    unfolding overlap_polygon_def Let_def box out
    by (simp only: polygon.select_convs polygon.update_convs map_corners_squeeze prod.case
        bool.case intersect_squeeze simp_thms if_False nat_numeral upt_small
        invert_vertices_squeeze orient_inverted_squeeze)
qed



subsection \<open>The rows that \<^verbatim>\<open>init_image_scanner\<close> returns\<close>

text \<open>The two search loops of \<^verbatim>\<open>init_scanner\<close> find the least and the greatest ordinate of
  a polygon with finite coordinates.\<close>

lemma find_min_fold:
  assumes nth: "\<And>k. k < length ps \<Longrightarrow> vy (vs ! k) = Fin (snd (ps ! k))"
  shows "1 \<le> m \<Longrightarrow> m \<le> length ps \<Longrightarrow>
    snd (fold (\<lambda>k (min_left, min_y).
                 if vy (vs ! k) < min_y then (int k, vy (vs ! k)) else (min_left, min_y))
           [1..<m] (0, vy (vs ! 0))) = Fin (Min (snd ` set (take m ps)))"
proof (induction m)
  case 0
  then show ?case by simp
next
  case (Suc m)
  show ?case
  proof (cases "m = 0")
    case True
    from Suc.prems have l: "0 < length ps"
      by linarith
    then have "take (Suc m) ps = [ps ! 0]"
      using True by (cases ps) simp_all
    with True nth [OF l] show ?thesis
      by simp
  next
    case False
    then have m: "1 \<le> m" "m \<le> length ps" "m < length ps"
      using Suc.prems by simp_all
    define acc where "acc = fold (\<lambda>k (min_left, min_y).
        if vy (vs ! k) < min_y then (int k, vy (vs ! k)) else (min_left, min_y))
      [1..<m] (0, vy (vs ! 0))"
    have ih: "snd acc = Fin (Min (snd ` set (take m ps)))"
      unfolding acc_def by (rule Suc.IH [OF m(1,2)])
    have ne: "snd ` set (take m ps) \<noteq> {}"
      using m by (cases ps) simp_all
    have "take (Suc m) ps = take m ps @ [ps ! m]"
      using m(3) by (simp add: take_Suc_conv_app_nth)
    then have M: "Min (snd ` set (take (Suc m) ps)) =
        min (snd (ps ! m)) (Min (snd ` set (take m ps)))"
      using ne by simp
    have "[1..<Suc m] = [1..<m] @ [m]"
      using m(1) by simp
    then have "snd (fold (\<lambda>k (min_left, min_y).
        if vy (vs ! k) < min_y then (int k, vy (vs ! k)) else (min_left, min_y))
      [1..<Suc m] (0, vy (vs ! 0))) =
      (if vy (vs ! m) < snd acc then vy (vs ! m) else snd acc)"
      by (simp add: acc_def split: prod.splits)
    also have "\<dots> = Fin (min (snd (ps ! m)) (Min (snd ` set (take m ps))))"
      by (simp add: ih nth [OF m(3)] min_def)
    finally show ?thesis
      by (simp only: M)
  qed
qed

lemma find_max_fold:
  assumes nth: "\<And>k. k < length ps \<Longrightarrow> vy (vs ! k) = Fin (snd (ps ! k))"
  shows "1 \<le> m \<Longrightarrow> m \<le> length ps \<Longrightarrow>
    snd (fold (\<lambda>k (max_right, max_y).
                 if vy (vs ! k) > max_y then (int k, vy (vs ! k)) else (max_right, max_y))
           [1..<m] (0, vy (vs ! 0))) = Fin (Max (snd ` set (take m ps)))"
proof (induction m)
  case 0
  then show ?case by simp
next
  case (Suc m)
  show ?case
  proof (cases "m = 0")
    case True
    from Suc.prems have l: "0 < length ps"
      by linarith
    then have "take (Suc m) ps = [ps ! 0]"
      using True by (cases ps) simp_all
    with True nth [OF l] show ?thesis
      by simp
  next
    case False
    then have m: "1 \<le> m" "m \<le> length ps" "m < length ps"
      using Suc.prems by simp_all
    define acc where "acc = fold (\<lambda>k (max_right, max_y).
        if vy (vs ! k) > max_y then (int k, vy (vs ! k)) else (max_right, max_y))
      [1..<m] (0, vy (vs ! 0))"
    have ih: "snd acc = Fin (Max (snd ` set (take m ps)))"
      unfolding acc_def by (rule Suc.IH [OF m(1,2)])
    have ne: "snd ` set (take m ps) \<noteq> {}"
      using m by (cases ps) simp_all
    have "take (Suc m) ps = take m ps @ [ps ! m]"
      using m(3) by (simp add: take_Suc_conv_app_nth)
    then have M: "Max (snd ` set (take (Suc m) ps)) =
        max (snd (ps ! m)) (Max (snd ` set (take m ps)))"
      using ne by simp
    have "[1..<Suc m] = [1..<m] @ [m]"
      using m(1) by simp
    then have "snd (fold (\<lambda>k (max_right, max_y).
        if vy (vs ! k) > max_y then (int k, vy (vs ! k)) else (max_right, max_y))
      [1..<Suc m] (0, vy (vs ! 0))) =
      (if vy (vs ! m) > snd acc then vy (vs ! m) else snd acc)"
      by (simp add: acc_def split: prod.splits)
    also have "\<dots> = Fin (max (snd (ps ! m)) (Max (snd ` set (take m ps))))"
      by (simp add: ih nth [OF m(3)] max_def)
    finally show ?thesis
      by (simp only: M)
  qed
qed

lemma find_min_max_points:
  assumes tk: "take (nat (npv p)) (v p) = map fin_vertex ps"
    and n: "npv p = int (length ps)" and n1: "1 \<le> length ps"
  shows "snd (find_min p) = Fin (Min (snd ` set ps))" "snd (find_max p) = Fin (Max (snd ` set ps))"
proof -
  have nth: "vy (v p ! k) = Fin (snd (ps ! k))" if "k < length ps" for k
    using fin_vertex_nth [OF tk _ that] n by (cases "ps ! k") simp
  show "snd (find_min p) = Fin (Min (snd ` set ps))"
    using find_min_fold [of ps "v p" "length ps", OF nth n1] by (simp add: find_min_def n)
  show "snd (find_max p) = Fin (Max (snd ` set ps))"
    using find_max_fold [of ps "v p" "length ps", OF nth n1] by (simp add: find_max_def n)
qed

text \<open>What \<^verbatim>\<open>init_scanner\<close> records for a polygon with at least 3 vertices.\<close>

lemma init_scanner_fields:
  assumes "3 \<le> npv p"
  shows "fst (init_scanner p s par) = 0"
    "min_y (snd (init_scanner p s par)) = snd (find_min p)"
    "max_y (snd (init_scanner p s par)) = snd (find_max p)"
    "s_ymax (snd (init_scanner p s par)) = ymax par"
    "overlap_valid (snd (init_scanner p s par)) = overlap_valid s"
  using assms by (simp_all add: init_scanner_def Let_def split: prod.splits)



lemma init_image_scanner_range:
  assumes o: "overlap_polygon cm1 cm2 cm3 junk par s = (s1, inpq)"
    and tk: "take (nat (npv inpq)) (v inpq) = map fin_vertex ps"
    and n: "npv inpq = int (length ps)" and n3: "3 \<le> length ps"
  shows "init_image_scanner cm1 cm2 cm3 junk par s =
    (0, snd (init_scanner inpq s1 par),
     max 0 (int_of_double (Fin (Min (snd ` set ps) + 1 / 2 + 2 * (3 / 100)))),
     min (ymax par) (int_of_double (Fin (Max (snd ` set ps) + 2 * (3 / 100)))))"
    and "min_y (snd (init_scanner inpq s1 par)) = Fin (Min (snd ` set ps))"
    and "max_y (snd (init_scanner inpq s1 par)) = Fin (Max (snd ` set ps))"
    and "overlap_valid (snd (init_scanner inpq s1 par)) = overlap_valid s1"
proof -
  have n3': "3 \<le> npv inpq"
    using n n3 by simp
  have n1: "1 \<le> length ps"
    using n3 by linarith
  note f = init_scanner_fields [OF n3', of s1 par]
  note m = find_min_max_points [OF tk n n1]
  show lo: "min_y (snd (init_scanner inpq s1 par)) = Fin (Min (snd ` set ps))"
    and hi: "max_y (snd (init_scanner inpq s1 par)) = Fin (Max (snd ` set ps))"
    and "overlap_valid (snd (init_scanner inpq s1 par)) = overlap_valid s1"
    by (simp_all only: f m)
  obtain k s' where i: "init_scanner inpq s1 par = (k, s')"
    by (cases "init_scanner inpq s1 par")
  with f(1,4) lo hi have k: "k = 0" and s': "s_ymax s' = ymax par"
    "min_y s' = Fin (Min (snd ` set ps))" "max_y s' = Fin (Max (snd ` set ps))"
    by simp_all
  have pad: "Fin a + 0.5 + 2.0 * MAX_INV_ERR = Fin (a + 1 / 2 + 2 * (3 / 100))"
    "Fin a + 2.0 * MAX_INV_ERR = Fin (a + 2 * (3 / 100))" for a
    by (simp_all add: MAX_INV_ERR_Fin double_eval)
  show "init_image_scanner cm1 cm2 cm3 junk par s =
    (0, snd (init_scanner inpq s1 par),
     max 0 (int_of_double (Fin (Min (snd ` set ps) + 1 / 2 + 2 * (3 / 100)))),
     min (ymax par) (int_of_double (Fin (Max (snd ` set ps) + 2 * (3 / 100)))))"
    by (simp only: init_image_scanner_def o i Let_def prod.case k s' pad snd_conv)
qed

text \<open>
  C7 (as amended).  Let \<open>inpq\<close> be the polygon that the scanner is built from: the
  intersection polygon mapped back to the frame of the input image or, when a step has
  failed, the bounding box of the input image.  When it has at least 3 vertices, with
  finite coordinates, \<^verbatim>\<open>init_image_scanner\<close> returns the status 0, and the rows
  \<open>ymin = max 0 (int) (min_y + 0.5 + 2 * 0.03)\<close> and
  \<open>ymax = min par->ymax ((int) (max_y + 2 * 0.03))\<close>, where \<open>min_y\<close> and \<open>max_y\<close> are the least
  and the greatest ordinate of the vertices of \<open>inpq\<close>, which the scanner records.  The
  upper limit is the last row \<^verbatim>\<open>par->ymax\<close> of the valid region of the input image; the
  height of the output image does not enter.
\<close>

theorem init_image_scanner_rows:
  assumes "overlap_polygon cm1 cm2 cm3 junk par s = (s1, inpq)"
    and "take (nat (npv inpq)) (v inpq) = map fin_vertex ps"
    and "npv inpq = int (length ps)" and "3 \<le> length ps"
  shows "case init_image_scanner cm1 cm2 cm3 junk par s of
    (n, s', ymin', ymax') \<Rightarrow>
      n = 0 \<and> overlap_valid s' = overlap_valid s1 \<and>
      min_y s' = Fin (Min (snd ` set ps)) \<and> max_y s' = Fin (Max (snd ` set ps)) \<and>
      ymin' = max 0 (int_of_double (Fin (Min (snd ` set ps) + 1 / 2 + 2 * (3 / 100)))) \<and>
      ymax' = min (ymax par) (int_of_double (Fin (Max (snd ` set ps) + 2 * (3 / 100))))"
  using init_image_scanner_range(2-4) [OF assms]
  by (simp only: init_image_scanner_range(1) [OF assms] prod.case simp_thms)

lemma squeeze_rows:
  fixes e :: real
  assumes "0 < e" "e \<le> 3 / 200"
  shows "Min (snd ` set [(- 1 / 2 + e, - 1 / 2 + e), (7 / 2 - e, - 1 / 2 + e),
      (7 / 2 - e, 7 / 2 - e), (- 1 / 2 + e, 7 / 2 - e)]) = - 1 / 2 + e"
    "Max (snd ` set [(- 1 / 2 + e, - 1 / 2 + e), (7 / 2 - e, - 1 / 2 + e),
      (7 / 2 - e, 7 / 2 - e), (- 1 / 2 + e, 7 / 2 - e)]) = 7 / 2 - e"
    "int_of_double (Fin (- 1 / 2 + e + 1 / 2 + 2 * (3 / 100))) = 0"
    "int_of_double (Fin (7 / 2 - e + 2 * (3 / 100))) = 3"
proof -
  show "Min (snd ` set [(- 1 / 2 + e, - 1 / 2 + e), (7 / 2 - e, - 1 / 2 + e),
      (7 / 2 - e, 7 / 2 - e), (- 1 / 2 + e, 7 / 2 - e)]) = - 1 / 2 + e"
    "Max (snd ` set [(- 1 / 2 + e, - 1 / 2 + e), (7 / 2 - e, - 1 / 2 + e),
      (7 / 2 - e, 7 / 2 - e), (- 1 / 2 + e, 7 / 2 - e)]) = 7 / 2 - e"
    using assms by simp_all
  have "\<lfloor>- 1 / 2 + e + 1 / 2 + 2 * (3 / 100)\<rfloor> = 0" "\<lfloor>7 / 2 - e + 2 * (3 / 100)\<rfloor> = 3"
    using assms by (simp_all add: floor_eq_iff)
  then show "int_of_double (Fin (- 1 / 2 + e + 1 / 2 + 2 * (3 / 100))) = 0"
    "int_of_double (Fin (7 / 2 - e + 2 * (3 / 100))) = 3"
    using assms by (simp_all add: trunc_real_def)
qed



lemma overlap_polygon_inverted:
  "overlap_polygon origin origin origin junk_origin squeeze_par s =
     (s\<lparr>overlap_valid := 1\<rparr>, polygon_of inverted_corners)"
  by (simp add: overlap_polygon_squeeze polygon_of_def inverted_corners_def
      IMAGE_OUTLINE_NPTS_def zero_double_def eval_nat_numeral)

lemma inverted_corners_points:
  "take (nat (npv (polygon_of inverted_corners))) (v (polygon_of inverted_corners)) =
     map fin_vertex inverted_corners"
  "npv (polygon_of inverted_corners) = int (length inverted_corners)"
  "3 \<le> length inverted_corners"
  by (simp_all add: polygon_of_points polygon_of_def inverted_corners_def)

lemma inverted_corners_rows:
  "Min (snd ` set inverted_corners) = - 1 / 2 + golden_width 10 / 2"
  "Max (snd ` set inverted_corners) = 7 / 2 - golden_width 10 / 2"
  "int_of_double (Fin (Min (snd ` set inverted_corners) + 1 / 2 + 2 * (3 / 100))) = 0"
  "int_of_double (Fin (Max (snd ` set inverted_corners) + 2 * (3 / 100))) = 3"
proof -
  note r = squeeze_rows [OF golden_width_10]
  show m: "Min (snd ` set inverted_corners) = - 1 / 2 + golden_width 10 / 2"
    "Max (snd ` set inverted_corners) = 7 / 2 - golden_width 10 / 2"
    unfolding inverted_corners_def by (rule r(1) r(2))+
  show "int_of_double (Fin (Min (snd ` set inverted_corners) + 1 / 2 + 2 * (3 / 100))) = 0"
    "int_of_double (Fin (Max (snd ` set inverted_corners) + 2 * (3 / 100))) = 3"
    unfolding m by (rule r(3) r(4))+
qed

theorem init_image_scanner_rows_witness:
  "overlap_polygon origin origin origin junk_origin squeeze_par blank_scanner =
     (blank_scanner\<lparr>overlap_valid := 1\<rparr>, polygon_of inverted_corners) \<and>
   take (nat (npv (polygon_of inverted_corners))) (v (polygon_of inverted_corners)) =
     map fin_vertex inverted_corners \<and>
   npv (polygon_of inverted_corners) = int (length inverted_corners) \<and>
   3 \<le> length inverted_corners \<and>
   (case init_image_scanner origin origin origin junk_origin squeeze_par blank_scanner of
      (n, s', ymin', ymax') \<Rightarrow>
        n = 0 \<and> overlap_valid s' = 1 \<and>
        min_y s' = Fin (- 1 / 2 + golden_width 10 / 2) \<and>
        max_y s' = Fin (7 / 2 - golden_width 10 / 2) \<and>
        ymin' = 0 \<and> ymax' = min (ymax squeeze_par) 3)"
proof -
  note o = overlap_polygon_inverted [of blank_scanner]
  note p = inverted_corners_points
  obtain n s' a b where r:
    "init_image_scanner origin origin origin junk_origin squeeze_par blank_scanner = (n, s', a, b)"
    by (cases "init_image_scanner origin origin origin junk_origin squeeze_par blank_scanner")
  from init_image_scanner_rows [OF o p] have "n = 0 \<and>
      overlap_valid s' = overlap_valid (blank_scanner\<lparr>overlap_valid := 1\<rparr>) \<and>
      min_y s' = Fin (Min (snd ` set inverted_corners)) \<and>
      max_y s' = Fin (Max (snd ` set inverted_corners)) \<and>
      a = max 0 0 \<and> b = min (ymax squeeze_par) 3"
    by (simp only: r prod.case inverted_corners_rows(3,4))
  then have "n = 0 \<and> overlap_valid s' = 1 \<and>
      min_y s' = Fin (- 1 / 2 + golden_width 10 / 2) \<and>
      max_y s' = Fin (7 / 2 - golden_width 10 / 2) \<and> a = 0 \<and> b = min (ymax squeeze_par) 3"
    by (simp add: inverted_corners_rows(1,2))
  with o p show ?thesis
    by (simp only: r prod.case simp_thms)
qed

text \<open>
  C7 (as stated) fails: the rows are not cut at the height of the output image.  The input
  image of 4 by 4 pixels is mapped onto the part \<open>[0.5, 4.5] \<times> [0.125, 1.125]\<close> of an
  output image with 2 rows; mapping, intersection and inversion succeed, the scanner
  polygon spans the rows of the input image, and \<^verbatim>\<open>init_image_scanner\<close> returns the rows 0
  to 3, beyond the last row 1 of the output image.
\<close>

theorem rows_beyond_output_image:
  "output_ndim0 squeeze_par = 2 \<and> ymax squeeze_par = 3 \<and>
   (case init_image_scanner origin origin origin junk_origin squeeze_par blank_scanner of
      (n, s', ymin', ymax') \<Rightarrow>
        n = 0 \<and> overlap_valid s' = 1 \<and> ymin' = 0 \<and> ymax' = 3 \<and>
        \<not> ymax' \<le> output_ndim0 squeeze_par - 1)"
proof -
  note o = overlap_polygon_inverted [of blank_scanner]
  note r = init_image_scanner_range [OF o inverted_corners_points]
  have d: "output_ndim0 squeeze_par = 2" "ymax squeeze_par = 3"
    by (simp_all add: squeeze_par_def)
  have "init_image_scanner origin origin origin junk_origin squeeze_par blank_scanner =
      (0, snd (init_scanner (polygon_of inverted_corners) (blank_scanner\<lparr>overlap_valid := 1\<rparr>)
         squeeze_par), max 0 0, min 3 3)"
    by (simp only: r(1) inverted_corners_rows(3,4) d)
  with r(4) show ?thesis
    by (simp add: d)
qed

end
